theory Spec2Isabelle
  imports Complex_Main
begin

section \<open>JavaScript strings\<close>

text \<open>
  A JavaScript string is a sequence of UTF-16 code units. The Korean literals of the
  source are written out as their code units; ASCII text goes through \<open>js\<close>.
  A string is truthy exactly when it is not empty.
\<close>

type_synonym jsstring = "nat list"

definition js :: "string \<Rightarrow> jsstring" where
  "js s = map of_char s"

definition truthy :: "jsstring \<Rightarrow> bool" where
  "truthy s = (s \<noteq> [])"

text \<open>\<open>a || b\<close> on a string that may be absent (undefined) and a default.\<close>

fun or_else :: "jsstring option \<Rightarrow> jsstring \<Rightarrow> jsstring" where
  "or_else None d = d"
| "or_else (Some s) d = (if truthy s then s else d)"

text \<open>
  The code units that \<open>String.prototype.trim\<close> strips: ECMAScript WhiteSpace
  (TAB, VT, FF, SP, NBSP, ZWNBSP and the category Zs) and LineTerminator
  (LF, CR, LS, PS).
\<close>

definition isWhiteSpace :: "nat \<Rightarrow> bool" where
  "isWhiteSpace c =
     (c = 9 \<or> c = 10 \<or> c = 11 \<or> c = 12 \<or> c = 13 \<or> c = 32 \<or> c = 160 \<or> c = 5760
      \<or> (8192 \<le> c \<and> c \<le> 8202) \<or> c = 8232 \<or> c = 8233 \<or> c = 8239 \<or> c = 8287
      \<or> c = 12288 \<or> c = 65279)"

definition trim :: "jsstring \<Rightarrow> jsstring" where
  "trim s = rev (dropWhile isWhiteSpace (rev (dropWhile isWhiteSpace s)))"

section \<open>The session log and its serialization (Interview, handleEndInterview)\<close>

text \<open>The interface \<open>QA\<close>: question, answer text, answer duration in seconds.\<close>

record QA =
  q :: jsstring
  aText :: jsstring
  durationSec :: rat

text \<open>The three literals of the serialization, as UTF-16 code units.\<close>

definition label_question :: jsstring where
  "label_question = [51656, 47928, 32, 58, 32]"

definition label_answer :: jsstring where
  "label_answer = [44, 32, 45813, 48320, 32, 58, 32]"

definition no_record :: jsstring where
  "no_record = [47732, 51217, 32, 44592, 47197, 51060, 32, 50630, 49845, 45768, 45796]"

text \<open>
  The body of \<open>qaLogs.forEach((qa, index) => ...)\<close>: \<open>index\<close> counts from 0,
  \<open>n\<close> is \<open>qaLogs.length\<close>, \<open>acc\<close> is \<open>interviewContent\<close> so far.
\<close>

fun forEach_qa :: "QA list \<Rightarrow> nat \<Rightarrow> nat \<Rightarrow> jsstring \<Rightarrow> jsstring" where
  "forEach_qa [] index n acc = acc"
| "forEach_qa (qa # rest) index n acc =
     (let answer = or_else (Some (aText qa)) (js '''');
          acc1 = acc @ (label_question @ q qa @ label_answer @ answer);
          acc2 = (if int index < int n - 1 then acc1 @ js '', '' else acc1)
      in forEach_qa rest (index + 1) n acc2)"

definition interviewContent :: "QA list \<Rightarrow> jsstring" where
  "interviewContent qaLogs =
     (if length qaLogs = 0 then no_record
      else forEach_qa qaLogs 0 (length qaLogs) (js ''''))"

subsection \<open>The rendering the specification describes\<close>

text \<open>One segment per Turn, and segments joined with a separator between neighbours only.\<close>

definition spec_segment :: "jsstring \<Rightarrow> jsstring \<Rightarrow> jsstring" where
  "spec_segment Q A = label_question @ Q @ label_answer @ A"

fun spec_join :: "jsstring \<Rightarrow> jsstring list \<Rightarrow> jsstring" where
  "spec_join sep [] = []"
| "spec_join sep [x] = x"
| "spec_join sep (x # y # ys) = x @ sep @ spec_join sep (y # ys)"

definition spec_transcript :: "QA list \<Rightarrow> jsstring" where
  "spec_transcript turns = spec_join (js '', '') (map (\<lambda>t. spec_segment (q t) (aText t)) turns)"

section \<open>The conversation route (handleSendMessage, waitForRunCompletion)\<close>

text \<open>
  What the route can throw. \<open>RunEnded status\<close> and \<open>RunTimedOut\<close> are the two
  errors \<open>waitForRunCompletion\<close> constructs itself; \<open>ClientError\<close> is an error thrown
  by a call of the remote client, \<open>TypeError\<close> the read of a property of undefined.
\<close>

datatype route_error =
    RunEnded jsstring
  | RunTimedOut
  | ClientError jsstring
  | TypeError

text \<open>What the loop does to the outside: a retrieval of the run, or a wait in milliseconds.\<close>

datatype wait_event = Retrieve nat | Sleep nat

text \<open>
  The remote run is a function from the number of the retrieval to what that retrieval
  gives: a thrown error or the run's \<open>status\<close>. The run object the loop returns is
  used for its status only, so the status stands for it.
\<close>

type_synonym remote_run = "nat \<Rightarrow> route_error + jsstring"

definition ended_statuses :: "jsstring list" where
  "ended_statuses = [js ''failed'', js ''cancelled'', js ''expired'']"

text \<open>
  The loop \<open>for (let i = 0; i < maxAttempts; i++)\<close>, from iteration \<open>i\<close> on, with
  the events so far.
\<close>

function waitLoop ::
  "remote_run \<Rightarrow> nat \<Rightarrow> nat \<Rightarrow> wait_event list \<Rightarrow> (route_error + jsstring) \<times> wait_event list"
where
  "waitLoop retrieve maxAttempts i evs =
     (if i < maxAttempts then
        (case retrieve i of
           Inl e \<Rightarrow> (Inl e, evs @ [Retrieve i])
         | Inr status \<Rightarrow>
             if status = js ''completed'' then (Inr status, evs @ [Retrieve i])
             else if List.member ended_statuses status
               then (Inl (RunEnded status), evs @ [Retrieve i])
             else waitLoop retrieve maxAttempts (i + 1) (evs @ [Retrieve i, Sleep 1000]))
      else (Inl RunTimedOut, evs))"
  by pat_completeness auto
termination
  by (relation "measure (\<lambda>(retrieve, maxAttempts, i, evs). maxAttempts - i)") auto

definition waitForRunCompletion ::
  "remote_run \<Rightarrow> nat \<Rightarrow> (route_error + jsstring) \<times> wait_event list" where
  "waitForRunCompletion retrieve maxAttempts = waitLoop retrieve maxAttempts 0 []"

text \<open>The default of the parameter \<open>maxAttempts\<close>.\<close>

definition default_maxAttempts :: nat where
  "default_maxAttempts = 60"

text \<open>
  A message of the thread as the route reads it: its role and its content parts, a
  text part with its value or a part of another type.
\<close>

datatype content_part = TextPart jsstring | OtherPart

record thread_message =
  role :: jsstring
  content :: "content_part list"

text \<open>The remote client as \<open>handleSendMessage\<close> meets it.\<close>

record remote_client =
  messages_create :: "route_error option"
  runs_create :: "route_error option"
  runs_retrieve :: remote_run
  messages_list :: "route_error + thread_message list"

text \<open>The JSON body of the route's answer, and the answer with its HTTP status.\<close>

datatype route_body =
    ErrorNoThreadId
  | ErrorNoMessage
  | ErrorThrown route_error
  | MessageBody jsstring jsstring
  | NoAnswerBody jsstring

record route_response =
  http_status :: nat
  body :: route_body

definition response_ok :: "route_response \<Rightarrow> bool" where
  "response_ok r = (200 \<le> http_status r \<and> http_status r \<le> 299)"

text \<open>The part of \<open>handleSendMessage\<close> after the run has completed.\<close>

definition latest_answer :: "jsstring \<Rightarrow> thread_message list \<Rightarrow> route_error + route_response" where
  "latest_answer runStatus msgs =
     (case filter (\<lambda>msg. role msg = js ''assistant'') msgs of
        [] \<Rightarrow> Inr \<lparr>http_status = 200, body = NoAnswerBody runStatus\<rparr>
      | latestMessage # _ \<Rightarrow>
          (case content latestMessage of
             [] \<Rightarrow> Inl TypeError
           | TextPart v # _ \<Rightarrow> Inr \<lparr>http_status = 200, body = MessageBody v runStatus\<rparr>
           | OtherPart # _ \<Rightarrow> Inr \<lparr>http_status = 200, body = NoAnswerBody runStatus\<rparr>))"

definition sendMessage_try :: "remote_client \<Rightarrow> route_error + route_response" where
  "sendMessage_try c =
     (case messages_create c of
        Some e \<Rightarrow> Inl e
      | None \<Rightarrow>
          (case runs_create c of
             Some e \<Rightarrow> Inl e
           | None \<Rightarrow>
               (case fst (waitForRunCompletion (runs_retrieve c) default_maxAttempts) of
                  Inl e \<Rightarrow> Inl e
                | Inr runStatus \<Rightarrow>
                    (case messages_list c of
                       Inl e \<Rightarrow> Inl e
                     | Inr msgs \<Rightarrow> latest_answer runStatus msgs))))"

definition handleSendMessage :: "remote_client \<Rightarrow> jsstring \<Rightarrow> jsstring \<Rightarrow> route_response" where
  "handleSendMessage c threadId message =
     (if \<not> truthy threadId then \<lparr>http_status = 400, body = ErrorNoThreadId\<rparr>
      else if \<not> truthy message then \<lparr>http_status = 400, body = ErrorNoMessage\<rparr>
      else (case sendMessage_try c of
              Inl e \<Rightarrow> \<lparr>http_status = 500, body = ErrorThrown e\<rparr>
            | Inr r \<Rightarrow> r))"

section \<open>The interview component: state\<close>

text \<open>
  The texts the component shows in \<open>errorMessage\<close>, by the place that sets them:
  the question could not be generated (startNextQuestion, answer not usable), the server
  could not be reached (startNextQuestion and processAudioToText, thrown error), the
  initialisation failed (initInterview, answer not usable, and thrown error), the
  microphone could not be accessed (initializeRecording), the session is not valid
  (the delayed call in processAudioToText), the speech was not recognised
  (processAudioToText, answer not usable).
\<close>

datatype ui_message =
    NoMessage
  | QuestionFailed
  | ServerConnection
  | InitFailed
  | InitError
  | MicAccess
  | SessionInvalid
  | SttFailed

datatype js_error = InvalidStateError

datatype recorder_state = Inactive | Recording

datatype context_state = Running | Closed

type_synonym blob = "nat list"

text \<open>
  The values of React state a function closes over: an asynchronous function goes on
  with the values of the render in which it was created, whatever the state is by then.
\<close>

record render =
  r_aiState :: nat
  r_isProcessing :: bool
  r_threadId :: jsstring

text \<open>A MediaRecorder: its state, the stream it records, and the render of its \<open>onstop\<close>.\<close>

record recorder =
  rec_state :: recorder_state
  rec_stream :: nat
  rec_onstop :: render

record audio_element =
  a_src :: "blob option"
  a_playing :: bool

text \<open>What leaves the component: the requests it sends, a playback it starts, the callback.\<close>

datatype request =
    PostCreateThread
  | PostSendMessage jsstring jsstring
  | PostTts jsstring
  | PostWhisper "blob list"
  | PostWebhook jsstring jsstring
  | GetUserMedia
  | AudioPlay
  | OnComplete

text \<open>
  An asynchronous function that waits is a continuation in \<open>pending\<close>: the point it
  waits at and what it closed over. The flag of the three continuations of
  \<open>startNextQuestion\<close> and \<open>playTTS\<close> says that \<open>initInterview\<close> awaits the call and
  goes on when it returns. \<open>AudioPlaying\<close> is the playing element with its
  \<open>onended\<close>, \<open>RecorderStopping\<close> a recorder after \<open>stop()\<close>, whose last data and
  \<open>stop\<close> event are still to come, \<open>Timeout1000\<close> the delayed call of
  \<open>startNextQuestion\<close>.
\<close>

datatype continuation =
    AwaitCreateThread render
  | AwaitSendMessage bool
  | AwaitTts bool
  | AwaitPlay bool
  | AudioPlaying
  | AwaitUserMedia render
  | RecorderStopping render
  | AwaitWhisper render rat
  | Timeout1000 render jsstring
  | AwaitWebhook

text \<open>
  How a wait ends: the promise rejects (for a request also: the body is not JSON); a
  response with \<open>response.ok\<close> and the one field of the body the caller reads, which
  may be absent; the promise resolves, the timer fires or the playback ends; the
  recorder hands over its data.
\<close>

datatype outcome =
    Rejected
  | Http bool "jsstring option"
  | Resolved
  | Data blob

text \<open>
  The component: its React state, its refs, the browser it runs in (\<open>mediaDevices\<close>:
  \<open>navigator.mediaDevices\<close> is there; \<open>openStreams\<close>: the microphone streams whose
  tracks have not been stopped), and the bookkeeping of the model. An animation frame
  request is its id, which is never 0.
\<close>

record interview =
  qaLogs :: "QA list"
  recordingState :: nat
  aiState :: nat
  isProcessing :: bool
  errorMessage :: ui_message
  threadId :: jsstring
  isInitialized :: bool
  recordStartTimeRef :: nat
  mediaRecorderRef :: "recorder option"
  audioChunksRef :: "blob list"
  audioContextRef :: "context_state option"
  animationFrameRef :: "nat option"
  streamRef :: "nat option"
  audioRef :: "audio_element option"
  isInitializingRef :: bool
  cleanupRegistered :: bool
  mediaDevices :: bool
  openStreams :: "nat list"
  nextStream :: nat
  nextFrame :: nat
  pending :: "continuation list"
  trace :: "request list"

definition initial :: interview where
  "initial =
     \<lparr>qaLogs = [], recordingState = 0, aiState = 0, isProcessing = False,
      errorMessage = NoMessage, threadId = js '''', isInitialized = False,
      recordStartTimeRef = 0, mediaRecorderRef = None, audioChunksRef = [],
      audioContextRef = None, animationFrameRef = None, streamRef = None,
      audioRef = None, isInitializingRef = False, cleanupRegistered = False,
      mediaDevices = True, openStreams = [], nextStream = 0, nextFrame = 1, pending = [],
      trace = []\<rparr>"

definition capture :: "interview \<Rightarrow> render" where
  "capture s = \<lparr>r_aiState = aiState s, r_isProcessing = isProcessing s, r_threadId = threadId s\<rparr>"

definition emit :: "request \<Rightarrow> interview \<Rightarrow> interview" where
  "emit r s = s\<lparr>trace := trace s @ [r]\<rparr>"

definition await :: "continuation \<Rightarrow> interview \<Rightarrow> interview" where
  "await k s = s\<lparr>pending := pending s @ [k]\<rparr>"

definition present :: "jsstring option \<Rightarrow> bool" where
  "present v = (case v of None \<Rightarrow> False | Some x \<Rightarrow> truthy x)"

definition bind_err :: "js_error + 'a \<Rightarrow> ('a \<Rightarrow> js_error + 'b) \<Rightarrow> js_error + 'b" where
  "bind_err r f = (case r of Inl e \<Rightarrow> Inl e | Inr x \<Rightarrow> f x)"

text \<open>\<open>stream.getTracks().forEach(track => track.stop())\<close>\<close>

definition stop_tracks :: "nat \<Rightarrow> interview \<Rightarrow> interview" where
  "stop_tracks st s = s\<lparr>openStreams := removeAll st (openStreams s)\<rparr>"

text \<open>
  \<open>MediaRecorder.stop()\<close>, in its stricter reading: on an inactive recorder it throws.
\<close>

definition recorder_stop :: "recorder_state \<Rightarrow> js_error + recorder_state" where
  "recorder_stop st = (if st = Inactive then Inl InvalidStateError else Inr Inactive)"

section \<open>The interview component: functions\<close>

definition cleanupAudio :: "interview \<Rightarrow> interview" where
  "cleanupAudio s =
     (let s1 = (case streamRef s of Some st \<Rightarrow> stop_tracks st s | None \<Rightarrow> s)
      in (case audioContextRef s1 of
            Some Running \<Rightarrow> s1\<lparr>audioContextRef := Some Closed\<rparr>
          | _ \<Rightarrow> s1))"

definition base64ToBlob :: "jsstring \<Rightarrow> blob" where
  "base64ToBlob binaryString = map (\<lambda>c. c mod 256) binaryString"

text \<open>
  \<open>initInterview\<close> after \<open>await startNextQuestion(...)\<close>: \<open>setIsInitialized(true)\<close>
  and the \<open>finally\<close> block. \<open>finish\<close> is the return of an awaited call.
\<close>

definition initInterview_done :: "interview \<Rightarrow> interview" where
  "initInterview_done s = s\<lparr>isInitialized := True, isInitializingRef := False\<rparr>"

definition finish :: "bool \<Rightarrow> interview \<Rightarrow> interview" where
  "finish from_init s = (if from_init then initInterview_done s else s)"

text \<open>\<open>playTTS\<close> up to the request, after the response, and after \<open>play()\<close> has settled.\<close>

definition playTTS :: "bool \<Rightarrow> jsstring \<Rightarrow> interview \<Rightarrow> interview" where
  "playTTS from_init text s =
     (let s1 = s\<lparr>aiState := 1\<rparr>;
          s2 = (case audioRef s1 of
                  Some a \<Rightarrow>
                    s1\<lparr>audioRef := Some \<lparr>a_src = None, a_playing = False\<rparr>,
                       pending := removeAll AudioPlaying (pending s1)\<rparr>
                | None \<Rightarrow> s1\<lparr>audioRef := Some \<lparr>a_src = None, a_playing = False\<rparr>\<rparr>)
      in await (AwaitTts from_init) (emit (PostTts text) s2))"

definition playTTS_response ::
  "(jsstring \<Rightarrow> jsstring option) \<Rightarrow> bool \<Rightarrow> outcome \<Rightarrow> interview \<Rightarrow> interview" where
  "playTTS_response atob from_init out s =
     (case out of
        Http ok audio \<Rightarrow>
          if ok \<and> present audio then
            (case atob (the audio) of
               None \<Rightarrow> finish from_init (s\<lparr>aiState := 2\<rparr>)
             | Some binaryString \<Rightarrow>
                 (case audioRef s of
                    None \<Rightarrow> finish from_init (s\<lparr>aiState := 2\<rparr>)
                  | Some a \<Rightarrow>
                      await (AwaitPlay from_init)
                        (emit AudioPlay
                          (s\<lparr>audioRef := Some (a\<lparr>a_src := Some (base64ToBlob binaryString)\<rparr>)\<rparr>))))
          else finish from_init (s\<lparr>aiState := 2\<rparr>)
      | _ \<Rightarrow> finish from_init (s\<lparr>aiState := 2\<rparr>))"

definition playTTS_played :: "bool \<Rightarrow> outcome \<Rightarrow> interview \<Rightarrow> interview" where
  "playTTS_played from_init out s =
     (case out of
        Resolved \<Rightarrow>
          finish from_init
            (await AudioPlaying
              (s\<lparr>audioRef := map_option (\<lambda>a. a\<lparr>a_playing := True\<rparr>) (audioRef s)\<rparr>))
      | _ \<Rightarrow> finish from_init (s\<lparr>aiState := 2\<rparr>))"

text \<open>The \<open>onended\<close> handler that \<open>playTTS\<close> sets.\<close>

definition audio_onended :: "interview \<Rightarrow> interview" where
  "audio_onended s =
     s\<lparr>audioRef := map_option (\<lambda>a. a\<lparr>a_playing := False\<rparr>) (audioRef s), aiState := 2\<rparr>"

text \<open>
  \<open>startNextQuestion\<close> up to the request and after the response. \<open>cl_aiState\<close> is the
  \<open>aiState\<close> the callback closed over.
\<close>

definition startNextQuestion ::
  "bool \<Rightarrow> nat \<Rightarrow> jsstring \<Rightarrow> jsstring \<Rightarrow> interview \<Rightarrow> interview" where
  "startNextQuestion from_init cl_aiState currentThreadId userMessage s =
     (if cl_aiState = 1 then finish from_init s
      else await (AwaitSendMessage from_init)
             (emit (PostSendMessage currentThreadId userMessage) (s\<lparr>aiState := 1\<rparr>)))"

definition startNextQuestion_response :: "bool \<Rightarrow> outcome \<Rightarrow> interview \<Rightarrow> interview" where
  "startNextQuestion_response from_init out s =
     (case out of
        Http ok message \<Rightarrow>
          if ok \<and> present message then
            playTTS from_init (the message)
              (s\<lparr>qaLogs := qaLogs s @ [\<lparr>q = the message, aText = js '''', durationSec = 0\<rparr>]\<rparr>)
          else finish from_init (s\<lparr>errorMessage := QuestionFailed, aiState := 0\<rparr>)
      | _ \<Rightarrow> finish from_init (s\<lparr>errorMessage := ServerConnection, aiState := 0\<rparr>))"

text \<open>The seed prompt of the first question, as UTF-16 code units.\<close>

definition seed_prompt :: jsstring where
  "seed_prompt =
     [47732, 51217, 51012, 32, 49884, 51089, 54633, 45768, 45796, 46, 32, 52395, 48264,
      51704, 32, 51656, 47928, 51012, 32, 54644, 51452, 49464, 50836, 46]"

text \<open>\<open>initInterview\<close> up to the request and after the response.\<close>

definition initInterview :: "interview \<Rightarrow> interview" where
  "initInterview s =
     await (AwaitCreateThread (capture s)) (emit PostCreateThread (s\<lparr>isInitializingRef := True\<rparr>))"

definition initInterview_response :: "render \<Rightarrow> outcome \<Rightarrow> interview \<Rightarrow> interview" where
  "initInterview_response cl out s =
     (case out of
        Http ok tid \<Rightarrow>
          if ok \<and> present tid then
            startNextQuestion True (r_aiState cl) (the tid) seed_prompt (s\<lparr>threadId := the tid\<rparr>)
          else s\<lparr>errorMessage := InitFailed, isInitializingRef := False\<rparr>
      | _ \<Rightarrow> s\<lparr>errorMessage := InitError, isInitializingRef := False\<rparr>)"

text \<open>
  \<open>drawWaveform\<close> draws, and requests the next frame, only when the analyser, its data
  array and the canvas are there. \<open>initializeRecording\<close> has set the first two when it
  calls it; the canvas is rendered exactly while \<open>recordingState\<close> is 1.
\<close>

definition drawWaveform :: "interview \<Rightarrow> interview" where
  "drawWaveform s =
     (if recordingState s = 1
      then s\<lparr>animationFrameRef := Some (nextFrame s), nextFrame := nextFrame s + 1\<rparr>
      else s)"

text \<open>
  \<open>initializeRecording\<close> up to \<open>await getUserMedia\<close>, and after it. Without
  \<open>navigator.mediaDevices\<close> the call throws a TypeError before any request is made,
  and the \<open>catch\<close> block runs at once. When the request is granted the browser opens a
  new stream, \<open>nextStream\<close>; when it is rejected the same \<open>catch\<close> block runs.
  \<open>cl\<close> is the render of the call, which the recorder's \<open>onstop\<close> keeps.
\<close>

definition initializeRecording :: "render \<Rightarrow> interview \<Rightarrow> interview" where
  "initializeRecording cl s =
     (let s1 = (case streamRef s of Some st \<Rightarrow> stop_tracks st s | None \<Rightarrow> s)
      in if mediaDevices s1 then await (AwaitUserMedia cl) (emit GetUserMedia s1)
         else s1\<lparr>errorMessage := MicAccess, recordingState := 0\<rparr>)"

definition initializeRecording_resume ::
  "render \<Rightarrow> nat \<Rightarrow> outcome \<Rightarrow> interview \<Rightarrow> interview" where
  "initializeRecording_resume cl now out s =
     (case out of
        Resolved \<Rightarrow>
          (let stream = nextStream s;
               s1 = s\<lparr>openStreams := openStreams s @ [stream], nextStream := stream + 1\<rparr>;
               s2 = s1\<lparr>streamRef := Some stream,
                       mediaRecorderRef :=
                         Some \<lparr>rec_state = Recording, rec_stream = stream, rec_onstop = cl\<rparr>,
                       audioChunksRef := [],
                       audioContextRef := Some Running,
                       recordStartTimeRef := now\<rparr>
           in drawWaveform s2)
      | _ \<Rightarrow> s\<lparr>errorMessage := MicAccess, recordingState := 0\<rparr>)"

definition stopRecording :: "interview \<Rightarrow> js_error + interview" where
  "stopRecording s =
     bind_err
       (case mediaRecorderRef s of
          Some r \<Rightarrow>
            if rec_state r \<noteq> Inactive then
              bind_err (recorder_stop (rec_state r))
                (\<lambda>st. Inr (await (RecorderStopping (rec_onstop r))
                            (s\<lparr>mediaRecorderRef := Some (r\<lparr>rec_state := st\<rparr>)\<rparr>)))
            else Inr s
        | None \<Rightarrow> Inr s)
       (\<lambda>s1.
          let s2 = (case animationFrameRef s1 of
                      Some f \<Rightarrow> if f \<noteq> 0 then s1\<lparr>animationFrameRef := None\<rparr> else s1
                    | None \<Rightarrow> s1);
              s3 = (case streamRef s2 of
                      Some st \<Rightarrow> (stop_tracks st s2)\<lparr>streamRef := None\<rparr>
                    | None \<Rightarrow> s2)
          in Inr s3)"

text \<open>
  The update of the last Turn in \<open>processAudioToText\<close>:
  \<open>if (updatedLogs.length > 0) { lastQA.aText = ...; lastQA.durationSec = ... }\<close>.
\<close>

definition answer_last :: "jsstring \<Rightarrow> rat \<Rightarrow> QA list \<Rightarrow> QA list" where
  "answer_last text d logs =
     (if length logs > 0
      then logs[length logs - 1 := (logs ! (length logs - 1))\<lparr>aText := text, durationSec := d\<rparr>]
      else logs)"

text \<open>
  \<open>processAudioToText\<close> up to the request and after the response, and the callback of
  its \<open>setTimeout\<close>. \<open>cl\<close> is the render the function closed over: the one in which
  the recording was started.
\<close>

definition processAudioToText :: "render \<Rightarrow> nat \<Rightarrow> interview \<Rightarrow> interview" where
  "processAudioToText cl now s =
     (if length (audioChunksRef s) = 0 then s
      else if r_isProcessing cl then s
      else
        (let recordDuration = of_int (int now - int (recordStartTimeRef s)) / 1000
         in await (AwaitWhisper cl recordDuration)
              (emit (PostWhisper (audioChunksRef s)) (s\<lparr>isProcessing := True\<rparr>))))"

definition processAudioToText_response ::
  "render \<Rightarrow> rat \<Rightarrow> outcome \<Rightarrow> interview \<Rightarrow> interview" where
  "processAudioToText_response cl recordDuration out s =
     (case out of
        Http ok text \<Rightarrow>
          if ok \<and> present text then
            (await (Timeout1000 cl (the text))
               (s\<lparr>qaLogs := answer_last (the text) recordDuration (qaLogs s)\<rparr>))
              \<lparr>isProcessing := False\<rparr>
          else s\<lparr>errorMessage := SttFailed, isProcessing := False\<rparr>
      | _ \<Rightarrow> s\<lparr>errorMessage := ServerConnection, isProcessing := False\<rparr>)"

definition nextQuestion_timeout :: "render \<Rightarrow> jsstring \<Rightarrow> interview \<Rightarrow> interview" where
  "nextQuestion_timeout cl text s =
     (let currentThreadId = r_threadId cl
      in if truthy currentThreadId
         then startNextQuestion False (r_aiState cl) currentThreadId text s
         else s\<lparr>errorMessage := SessionInvalid\<rparr>)"

text \<open>
  The recorder's last \<open>dataavailable\<close> event (\<open>ondataavailable\<close> pushes the data) and
  its \<open>stop\<close> event (\<open>onstop\<close> calls \<open>processAudioToText\<close>).
\<close>

definition recorder_onstop :: "render \<Rightarrow> nat \<Rightarrow> outcome \<Rightarrow> interview \<Rightarrow> interview" where
  "recorder_onstop cl now out s =
     (case out of
        Data b \<Rightarrow> processAudioToText cl now (s\<lparr>audioChunksRef := audioChunksRef s @ [b]\<rparr>)
      | _ \<Rightarrow> processAudioToText cl now s)"

text \<open>The click handler of the record button reads the state of the last render.\<close>

definition toggleRecording :: "interview \<Rightarrow> js_error + interview" where
  "toggleRecording s =
     (if aiState s = 1 \<or> isProcessing s then Inr s
      else
        (let newRecordingState = (if recordingState s = 0 then 1 else 0);
             s1 = s\<lparr>recordingState := newRecordingState\<rparr>
         in if newRecordingState = 1 then Inr (initializeRecording (capture s) s1)
            else stopRecording s1))"

text \<open>
  The cache entry as \<open>handleEndInterview\<close> reads it: no entry (\<open>getItem\<close> gives null or
  the empty string), an entry that \<open>JSON.parse\<close> or the read of \<open>contact\<close> throws on,
  or a parsed entry with its \<open>contact\<close>, which may be absent.
\<close>

datatype cached = NoEntry | BadEntry | Entry "jsstring option"

definition isDigit :: "nat \<Rightarrow> bool" where
  "isDigit c = (48 \<le> c \<and> c \<le> 57)"

definition contactNumber :: "cached \<Rightarrow> jsstring" where
  "contactNumber c =
     (case c of
        Entry contact \<Rightarrow>
          (let rawPhoneNumber = or_else contact (js '''')
           in if truthy rawPhoneNumber then
                (let digits = filter isDigit rawPhoneNumber
                 in if length digits = 11 then
                      take 3 digits @ js ''-'' @ take 4 (drop 3 digits) @ js ''-'' @ drop 7 digits
                    else if length digits = 10 then
                      take 3 digits @ js ''-'' @ take 3 (drop 3 digits) @ js ''-'' @ drop 6 digits
                    else rawPhoneNumber)
              else js '''')
      | _ \<Rightarrow> js '''')"

text \<open>
  \<open>handleEndInterview\<close>. Its part before the \<open>try\<close> stops what is going on and
  resets the state (\<open>handleEndInterview_stop\<close>); the transcript is built there too,
  from the log of the render of the click. Inside the \<open>try\<close> the function reads the
  cache entry and sends the webhook request. \<open>handleEndInterview\<close> is the function
  when \<open>localStorage.getItem\<close> returns, up to the request, and
  \<open>handleEndInterview_settled\<close> goes on when the request has settled: whatever the
  outcome, the \<open>finally\<close> block calls \<open>onComplete\<close>.
  \<open>handleEndInterview_unread\<close> is the function when \<open>localStorage.getItem\<close> throws:
  the \<open>catch\<close> block of the same \<open>try\<close> runs, no request is sent, and the
  \<open>finally\<close> block calls \<open>onComplete\<close>.
\<close>

definition handleEndInterview_stop :: "interview \<Rightarrow> js_error + interview" where
  "handleEndInterview_stop s =
     bind_err (stopRecording s)
       (\<lambda>s1.
          let s2 = cleanupAudio s1;
              s3 = (case audioRef s2 of
                      Some a \<Rightarrow>
                        s2\<lparr>audioRef := Some \<lparr>a_src = None, a_playing = False\<rparr>,
                           pending := removeAll AudioPlaying (pending s2)\<rparr>
                    | None \<Rightarrow> s2)
          in Inr (s3\<lparr>aiState := 0, recordingState := 0, isProcessing := False\<rparr>))"

definition handleEndInterview :: "cached \<Rightarrow> interview \<Rightarrow> js_error + interview" where
  "handleEndInterview cachedData s =
     bind_err (handleEndInterview_stop s)
       (\<lambda>s4.
          let content = interviewContent (qaLogs s)
          in Inr (await AwaitWebhook (emit (PostWebhook content (contactNumber cachedData)) s4)))"

definition handleEndInterview_settled :: "outcome \<Rightarrow> interview \<Rightarrow> interview" where
  "handleEndInterview_settled out s = emit OnComplete s"

definition handleEndInterview_unread :: "interview \<Rightarrow> js_error + interview" where
  "handleEndInterview_unread s =
     bind_err (handleEndInterview_stop s) (\<lambda>s4. Inr (emit OnComplete s4))"

section \<open>The interview component: events\<close>

text \<open>
  The effect of the component has the dependencies \<open>isInitialized\<close> and
  \<open>startNextQuestion\<close>, and the callback changes with \<open>aiState\<close>. When one of the two
  has changed in a render, the cleanup the effect returned last runs
  (\<open>stopRecording(); cleanupAudio()\<close>) and the effect runs again; it returns a cleanup
  only when it starts \<open>initInterview\<close>.
\<close>

definition useEffect_body :: "interview \<Rightarrow> interview" where
  "useEffect_body s =
     (if isInitializingRef s \<or> isInitialized s then s
      else (initInterview s)\<lparr>cleanupRegistered := True\<rparr>)"

definition rerender :: "interview \<Rightarrow> interview \<Rightarrow> js_error + interview" where
  "rerender prev s =
     (if aiState s = aiState prev \<and> isInitialized s = isInitialized prev then Inr s
      else
        bind_err
          (if cleanupRegistered s
           then bind_err (stopRecording s) (\<lambda>s1. Inr ((cleanupAudio s1)\<lparr>cleanupRegistered := False\<rparr>))
           else Inr s)
          (\<lambda>s2. Inr (useEffect_body s2)))"

text \<open>
  What happens to the component: it mounts, the user clicks the record button, the user
  clicks the end button (in a browser that gives the cache entry, or in one whose
  \<open>localStorage.getItem\<close> throws), or the wait with the given index in \<open>pending\<close>
  ends.
\<close>

datatype event = Mount | ClickRecord | ClickEnd cached | ClickEndUnread | Settle nat outcome

fun resume ::
  "(jsstring \<Rightarrow> jsstring option) \<Rightarrow> nat \<Rightarrow> continuation \<Rightarrow> outcome \<Rightarrow> interview \<Rightarrow> interview"
where
  "resume atob now (AwaitCreateThread cl) out s = initInterview_response cl out s"
| "resume atob now (AwaitSendMessage from_init) out s = startNextQuestion_response from_init out s"
| "resume atob now (AwaitTts from_init) out s = playTTS_response atob from_init out s"
| "resume atob now (AwaitPlay from_init) out s = playTTS_played from_init out s"
| "resume atob now AudioPlaying out s = audio_onended s"
| "resume atob now (AwaitUserMedia cl) out s = initializeRecording_resume cl now out s"
| "resume atob now (RecorderStopping cl) out s = recorder_onstop cl now out s"
| "resume atob now (AwaitWhisper cl d) out s = processAudioToText_response cl d out s"
| "resume atob now (Timeout1000 cl text) out s = nextQuestion_timeout cl text s"
| "resume atob now AwaitWebhook out s = handleEndInterview_settled out s"

definition handle ::
  "(jsstring \<Rightarrow> jsstring option) \<Rightarrow> nat \<Rightarrow> event \<Rightarrow> interview \<Rightarrow> js_error + interview"
where
  "handle atob now e s =
     (case e of
        Mount \<Rightarrow> Inr (useEffect_body s)
      | ClickRecord \<Rightarrow> toggleRecording s
      | ClickEnd cachedData \<Rightarrow> handleEndInterview cachedData s
      | ClickEndUnread \<Rightarrow> handleEndInterview_unread s
      | Settle i out \<Rightarrow>
          if i < length (pending s)
          then Inr (resume atob now (pending s ! i) out
                      (s\<lparr>pending := take i (pending s) @ drop (Suc i) (pending s)\<rparr>))
          else Inr s)"

definition step ::
  "(jsstring \<Rightarrow> jsstring option) \<Rightarrow> nat \<times> event \<Rightarrow> interview \<Rightarrow> js_error + interview"
where
  "step atob ev s = bind_err (handle atob (fst ev) (snd ev) s) (rerender s)"

fun run ::
  "(jsstring \<Rightarrow> jsstring option) \<Rightarrow> (nat \<times> event) list \<Rightarrow> interview \<Rightarrow> js_error + interview"
where
  "run atob [] s = Inr s"
| "run atob (ev # evs) s = bind_err (step atob ev s) (run atob evs)"

section \<open>The microphone self-test (MicTest)\<close>

datatype permission = Granted | Denied | Prompt

text \<open>
  The texts of \<open>errorMessage\<close>: none, the browser does not support recording
  (thrown by \<open>startRecording\<close>), the message of another error thrown in
  \<open>startRecording\<close>, its default for a thrown value that is no Error, the conversion
  failed (thrown by \<open>handleRecordingComplete\<close> on a response that is not ok), the
  message of the error with which the transcription request or the read of its body
  rejects, and the default of \<open>handleRecordingComplete\<close> for a thrown value that is no
  Error.
\<close>

datatype mic_message =
    NoMicMessage
  | Unsupported
  | Thrown jsstring
  | AccessFailed
  | ConversionFailed
  | RequestThrown
  | ConversionError

text \<open>
  How \<open>getUserMedia\<close> ends for \<open>startRecording\<close>: granted, or rejected with an Error
  whose name is or is not one of \<open>NotAllowedError\<close> and \<open>PermissionDeniedError\<close>, and
  its message.
\<close>

datatype media_outcome = MediaGranted | MediaRejected bool jsstring

record mictest =
  isRecording :: bool
  isRecordingComplete :: bool
  isConverting :: bool
  conversionResult :: jsstring
  isSuccess :: "bool option"
  m_errorMessage :: mic_message
  isLoading :: bool
  micPermission :: permission
  isTimerComplete :: bool
  remainingTime :: nat
  recorderRef :: "recorder_state option"
  m_audioChunksRef :: "blob list"
  m_audioContextRef :: "context_state option"
  m_animationFrameRef :: "nat option"
  m_streamRef :: "nat option"
  timerRef :: "nat option"
  m_recordStartTimeRef :: nat
  m_openStreams :: "nat list"
  m_nextStream :: nat
  m_nextFrame :: nat
  m_nextTimer :: nat
  m_trace :: "request list"

definition mic_initial :: mictest where
  "mic_initial =
     \<lparr>isRecording = False, isRecordingComplete = False, isConverting = False,
      conversionResult = js '''', isSuccess = None, m_errorMessage = NoMicMessage,
      isLoading = False, micPermission = Prompt, isTimerComplete = False, remainingTime = 5,
      recorderRef = None, m_audioChunksRef = [], m_audioContextRef = None,
      m_animationFrameRef = None, m_streamRef = None, timerRef = None,
      m_recordStartTimeRef = 0, m_openStreams = [], m_nextStream = 0, m_nextFrame = 1,
      m_nextTimer = 1, m_trace = []\<rparr>"

definition mic_stop_tracks :: "nat \<Rightarrow> mictest \<Rightarrow> mictest" where
  "mic_stop_tracks st s = s\<lparr>m_openStreams := removeAll st (m_openStreams s)\<rparr>"

text \<open>
  \<open>startCanvasAnimation\<close> returns at once without the canvas, which is rendered exactly
  while \<open>isRecording\<close> is true; \<open>setupAudioVisualization\<close> closes the old context,
  makes a new one and calls it.
\<close>

definition startCanvasAnimation :: "mictest \<Rightarrow> mictest" where
  "startCanvasAnimation s =
     (if isRecording s
      then s\<lparr>m_animationFrameRef := Some (m_nextFrame s), m_nextFrame := m_nextFrame s + 1\<rparr>
      else s)"

definition setupAudioVisualization :: "mictest \<Rightarrow> mictest" where
  "setupAudioVisualization s = startCanvasAnimation (s\<lparr>m_audioContextRef := Some Running\<rparr>)"

text \<open>
  \<open>startRecording\<close> up to \<open>await getUserMedia\<close> (\<open>supported\<close>: the browser has
  \<open>navigator.mediaDevices\<close> and \<open>MediaRecorder\<close>), and after it. The result of the
  first part says whether the function waits.
\<close>

definition mic_startRecording :: "bool \<Rightarrow> mictest \<Rightarrow> mictest \<times> bool" where
  "mic_startRecording supported s =
     (let s1 = s\<lparr>isLoading := True, m_errorMessage := NoMicMessage, isTimerComplete := False\<rparr>;
          s2 = (case m_streamRef s1 of
                  Some st \<Rightarrow> (mic_stop_tracks st s1)\<lparr>m_streamRef := None\<rparr>
                | None \<Rightarrow> s1)
      in if \<not> supported then (s2\<lparr>isLoading := False, m_errorMessage := Unsupported\<rparr>, False)
         else (s2\<lparr>m_trace := m_trace s2 @ [GetUserMedia]\<rparr>, True))"

definition mic_startRecording_resume :: "nat \<Rightarrow> media_outcome \<Rightarrow> mictest \<Rightarrow> mictest" where
  "mic_startRecording_resume now out s =
     (case out of
        MediaGranted \<Rightarrow>
          (let stream = m_nextStream s;
               s1 = s\<lparr>m_openStreams := m_openStreams s @ [stream], m_nextStream := stream + 1\<rparr>;
               s2 = setupAudioVisualization (s1\<lparr>m_streamRef := Some stream, micPermission := Granted\<rparr>)
           in s2\<lparr>recorderRef := Some Recording, m_audioChunksRef := [], isRecording := True,
                 isLoading := False, m_recordStartTimeRef := now, remainingTime := 5,
                 timerRef := Some (m_nextTimer s2), m_nextTimer := m_nextTimer s2 + 1\<rparr>)
      | MediaRejected denied msg \<Rightarrow>
          (let s1 = s\<lparr>isLoading := False, m_errorMessage := Thrown msg\<rparr>
           in if denied then s1\<lparr>micPermission := Denied\<rparr> else s1))"

text \<open>
  \<open>stopRecording\<close> of the self-test. It neither stops the tracks nor closes the context.
  The second component of the result says whether the recorder was stopped, so that its
  \<open>onstop\<close>, \<open>handleRecordingComplete\<close>, is to come.
\<close>

definition mic_stopRecording :: "mictest \<Rightarrow> js_error + mictest \<times> bool" where
  "mic_stopRecording s =
     (let s1 = (case timerRef s of
                  Some t \<Rightarrow> if t \<noteq> 0 then s\<lparr>timerRef := None\<rparr> else s
                | None \<Rightarrow> s)
      in bind_err
           (case recorderRef s1 of
              Some r \<Rightarrow>
                if isRecording s1 then
                  bind_err (recorder_stop r)
                    (\<lambda>st. Inr (s1\<lparr>isRecording := False, recorderRef := None\<rparr>, True))
                else Inr (s1, False)
            | None \<Rightarrow> Inr (s1, False))
           (\<lambda>(s2, stopped).
              Inr (case m_animationFrameRef s2 of
                     Some f \<Rightarrow> (s2\<lparr>m_animationFrameRef := None\<rparr>, stopped)
                   | None \<Rightarrow> (s2, stopped))))"

text \<open>\<open>handleRecordingComplete\<close> up to the request and after the response.\<close>

definition handleRecordingComplete :: "mictest \<Rightarrow> mictest" where
  "handleRecordingComplete s =
     s\<lparr>isRecordingComplete := True, isConverting := True,
       m_trace := m_trace s @ [PostWhisper (m_audioChunksRef s)]\<rparr>"

definition handleRecordingComplete_response :: "outcome \<Rightarrow> mictest \<Rightarrow> mictest" where
  "handleRecordingComplete_response out s =
     (case out of
        Http ok text \<Rightarrow>
          if \<not> ok then s\<lparr>m_errorMessage := ConversionFailed, isSuccess := Some False, isConverting := False\<rparr>
          else
            (let s1 = s\<lparr>conversionResult := or_else text (js '''')\<rparr>;
                 s2 = (if present text \<and> trim (the text) \<noteq> js ''''
                       then s1\<lparr>isSuccess := Some True\<rparr>
                       else s1\<lparr>isSuccess := Some False\<rparr>)
             in s2\<lparr>isConverting := False\<rparr>)
      | _ \<Rightarrow> s\<lparr>m_errorMessage := RequestThrown, isSuccess := Some False, isConverting := False\<rparr>)"

text \<open>
  The button that proceeds to the next step: rendered once the recording is complete and
  the permission is not denied, with \<open>disabled={!isSuccess}\<close>. It is the only caller of
  \<open>handleNext\<close>.
\<close>

definition next_enabled :: "mictest \<Rightarrow> bool" where
  "next_enabled s = (micPermission s \<noteq> Denied \<and> isRecordingComplete s \<and> isSuccess s = Some True)"

definition handleNext :: "mictest \<Rightarrow> mictest" where
  "handleNext s =
     (let s1 = (case m_streamRef s of
                  Some st \<Rightarrow> (mic_stop_tracks st s)\<lparr>m_streamRef := None\<rparr>
                | None \<Rightarrow> s);
          s2 = (case m_audioContextRef s1 of
                  Some Running \<Rightarrow> s1\<lparr>m_audioContextRef := None\<rparr>
                | _ \<Rightarrow> s1)
      in s2\<lparr>m_trace := m_trace s2 @ [OnComplete]\<rparr>)"

definition click_next :: "mictest \<Rightarrow> mictest" where
  "click_next s = (if next_enabled s then handleNext s else s)"

section \<open>Notions the properties are stated with\<close>

text \<open>
  A capture is open in the interview when the recorder is not inactive, an animation
  frame is requested or a stream is held; in the self-test when the countdown runs, a
  recorder is recording or an animation frame is requested.
\<close>

definition capture_open :: "interview \<Rightarrow> bool" where
  "capture_open s =
     ((case mediaRecorderRef s of Some r \<Rightarrow> rec_state r \<noteq> Inactive | None \<Rightarrow> False)
      \<or> (case animationFrameRef s of Some f \<Rightarrow> f \<noteq> 0 | None \<Rightarrow> False)
      \<or> streamRef s \<noteq> None)"

definition mic_capture_open :: "mictest \<Rightarrow> bool" where
  "mic_capture_open s =
     ((case timerRef s of Some t \<Rightarrow> t \<noteq> 0 | None \<Rightarrow> False)
      \<or> (recorderRef s \<noteq> None \<and> isRecording s)
      \<or> m_animationFrameRef s \<noteq> None)"

text \<open>The self-test while it records: started on a supporting browser, access granted.\<close>

definition mic_recording :: mictest where
  "mic_recording = mic_startRecording_resume 0 MediaGranted (fst (mic_startRecording True mic_initial))"

text \<open>
  A retrieval after which the loop waits and goes on: the run is neither completed nor
  failed, cancelled or expired. \<open>polls k\<close> are the events of \<open>k\<close> such retrievals.
\<close>

definition waiting :: "route_error + jsstring \<Rightarrow> bool" where
  "waiting r =
     (case r of
        Inl e \<Rightarrow> False
      | Inr status \<Rightarrow> status \<noteq> js ''completed'' \<and> \<not> List.member ended_statuses status)"

definition polls :: "nat \<Rightarrow> wait_event list" where
  "polls k = concat (map (\<lambda>j. [Retrieve j, Sleep 1000]) [0..<k])"

definition retrievals :: "wait_event list \<Rightarrow> nat" where
  "retrievals evs = length (filter (\<lambda>e. case e of Retrieve j \<Rightarrow> True | Sleep ms \<Rightarrow> False) evs)"

text \<open>
  Three remote runs: completed at the third retrieval, failed at the second, and never
  leaving the queue; and a client whose run never leaves the queue.
\<close>

definition run_completing :: remote_run where
  "run_completing i = (if i < 2 then Inr (js ''in_progress'') else Inr (js ''completed''))"

definition run_failing :: remote_run where
  "run_failing i = (if i < 1 then Inr (js ''queued'') else Inr (js ''failed''))"

definition run_queued :: remote_run where
  "run_queued i = Inr (js ''queued'')"

definition client_queued :: remote_client where
  "client_queued =
     \<lparr>messages_create = None, runs_create = None, runs_retrieve = run_queued,
      messages_list = Inr []\<rparr>"

text \<open>What the properties look at in a state of the interview.\<close>

definition phase_view ::
  "interview \<Rightarrow> nat \<times> nat \<times> bool \<times> recorder_state option \<times> nat list" where
  "phase_view s =
     (recordingState s, aiState s, isProcessing s, map_option rec_state (mediaRecorderRef s),
      openStreams s)"

definition capture_view ::
  "interview \<Rightarrow> nat \<times> recorder_state option \<times> nat option \<times> nat list \<times> continuation list" where
  "capture_view s =
     (recordingState s, map_option rec_state (mediaRecorderRef s), streamRef s, openStreams s,
      pending s)"

definition answer_view ::
  "interview \<Rightarrow> ui_message \<times> (jsstring \<times> rat) list \<times> continuation list \<times> nat \<times> request list" where
  "answer_view s =
     (errorMessage s, map (\<lambda>t. (aText t, durationSec t)) (qaLogs s), pending s, aiState s,
      trace s)"

text \<open>
  Runs of the interview, as times and events. In \<open>first_question_asked\<close> the component
  mounts, the thread is created, the first question arrives, is synthesized, starts to
  play and ends. In \<open>answer_recorded\<close> the user then records for 1.5 seconds and stops,
  and the recorder hands over its data.
\<close>

definition first_question_asked :: "(nat \<times> event) list" where
  "first_question_asked =
     [(0, Mount),
      (1, Settle 0 (Http True (Some (js ''t1'')))),
      (2, Settle 0 (Http True (Some (js ''Q1'')))),
      (3, Settle 0 (Http True (Some (js ''QUJD'')))),
      (4, Settle 0 Resolved),
      (5, Settle 0 Resolved)]"

definition answer_recorded :: "(nat \<times> event) list" where
  "answer_recorded =
     first_question_asked @
     [(6, ClickRecord), (7, Settle 0 Resolved), (1507, ClickRecord), (1508, Settle 0 (Data [1, 2, 3]))]"

text \<open>
  A state of the interview with one open Turn, and the render of a recording started
  while the user was awaited; the self-test after a recording whose transcription gave
  a word.
\<close>

definition open_turn :: interview where
  "open_turn =
     initial\<lparr>qaLogs := [\<lparr>q = js ''Q1'', aText = js '''', durationSec = 0\<rparr>], aiState := 2,
             threadId := js ''t1'', isInitialized := True, isProcessing := True\<rparr>"


definition mic_passed :: mictest where
  "mic_passed =
     handleRecordingComplete_response (Http True (Some (js ''hi'')))
       (handleRecordingComplete mic_initial)"

text \<open>
  Calls of start and stop in which every start has settled before the next call is made:
  for the interview \<open>initializeRecording\<close> with its continuation and \<open>stopRecording\<close>,
  for the self-test \<open>startRecording\<close> with its continuation and \<open>stopRecording\<close>.
  \<open>held_only\<close>: no stream is open but the one the component holds.
\<close>

datatype capture_call = StartCapture render nat outcome | StopCapture

fun settle_calls :: "capture_call list \<Rightarrow> interview \<Rightarrow> js_error + interview" where
  "settle_calls [] s = Inr s"
| "settle_calls (StartCapture cl now out # cs) s =
     settle_calls cs (initializeRecording_resume cl now out (initializeRecording cl s))"
| "settle_calls (StopCapture # cs) s = bind_err (stopRecording s) (settle_calls cs)"

definition held_only :: "interview \<Rightarrow> bool" where
  "held_only s =
     (openStreams s = [] \<or> (case streamRef s of Some st \<Rightarrow> openStreams s = [st] | None \<Rightarrow> False))"

datatype mic_call = MicStart bool nat media_outcome | MicStop

fun mic_settle_calls :: "mic_call list \<Rightarrow> mictest \<Rightarrow> js_error + mictest" where
  "mic_settle_calls [] s = Inr s"
| "mic_settle_calls (MicStart supported now out # cs) s =
     (case mic_startRecording supported s of
        (s1, True) \<Rightarrow> mic_settle_calls cs (mic_startRecording_resume now out s1)
      | (s1, False) \<Rightarrow> mic_settle_calls cs s1)"
| "mic_settle_calls (MicStop # cs) s =
     bind_err (mic_stopRecording s) (\<lambda>(s1, stopped). mic_settle_calls cs s1)"

definition mic_held_only :: "mictest \<Rightarrow> bool" where
  "mic_held_only s =
     (m_openStreams s = [] \<or> (case m_streamRef s of Some st \<Rightarrow> m_openStreams s = [st] | None \<Rightarrow> False))"

section \<open>Serialization: proofs\<close>

lemma js_Nil [simp]: "js [] = []"
  by (simp add: js_def)

lemma truthy_or_empty [simp]: "(if truthy s then s else []) = s"
  by (simp add: truthy_def)

lemma forEach_qa_join:
  "index + length turns = n \<Longrightarrow>
   forEach_qa turns index n acc = acc @ spec_transcript turns"
proof (induction turns arbitrary: index acc)
  case Nil
  then show ?case by (simp add: spec_transcript_def)
next
  case (Cons t rest)
  show ?case
  proof (cases rest)
    case Nil
    with Cons.prems show ?thesis
      by (simp add: spec_transcript_def spec_segment_def)
  next
    case (Cons u more)
    from Cons.prems have step: "Suc index + length rest = n" by simp
    from Cons.prems Cons have less: "int index < int n - 1" by simp
    have "forEach_qa (t # rest) index n acc =
          forEach_qa rest (Suc index) n
            (acc @ (label_question @ q t @ label_answer @ aText t) @ js '', '')"
      using less by simp
    also have "\<dots> = (acc @ (label_question @ q t @ label_answer @ aText t) @ js '', '')
                      @ spec_transcript rest"
      using Cons.IH [OF step] by simp
    finally show ?thesis
      using Cons by (simp add: spec_transcript_def spec_segment_def)
  qed
qed

text \<open>
  C3. For every session log, the serialization at session end is the Turns' segments
  (question label, question, answer label, answer), one per Turn in insertion order,
  with the separator between neighbouring segments only; the empty log renders as the
  fixed notice and has no segment.
\<close>

theorem interviewContent_segments:
  "interviewContent turns = (if turns = [] then no_record else spec_transcript turns)"
  using forEach_qa_join [of 0 turns "length turns" "js ''''"]
  by (simp add: interviewContent_def)

section \<open>Stopping a capture\<close>

lemma stopRecording_noop: "\<not> capture_open s \<Longrightarrow> stopRecording s = Inr s"
  by (cases "mediaRecorderRef s"; cases "animationFrameRef s"; cases "streamRef s")
     (simp_all add: capture_open_def stopRecording_def bind_err_def)

lemma stopRecording_twice: "\<exists>s'. stopRecording s = Inr s' \<and> stopRecording s' = Inr s'"
  by (cases "mediaRecorderRef s"; cases "animationFrameRef s"; cases "streamRef s")
     (simp_all add: stopRecording_def bind_err_def recorder_stop_def await_def stop_tracks_def)

lemma stopRecording_keeps:
  "stopRecording s = Inr s1 \<Longrightarrow>
   trace s1 = trace s \<and> qaLogs s1 = qaLogs s \<and> audioRef s1 = audioRef s
   \<and> audioContextRef s1 = audioContextRef s \<and> aiState s1 = aiState s
   \<and> recordingState s1 = recordingState s"
  by (cases "mediaRecorderRef s"; cases "animationFrameRef s"; cases "streamRef s")
     (auto simp add: stopRecording_def bind_err_def recorder_stop_def await_def stop_tracks_def
           split: if_splits)

lemma mic_stopRecording_noop: "\<not> mic_capture_open m \<Longrightarrow> mic_stopRecording m = Inr (m, False)"
  by (cases "timerRef m"; cases "recorderRef m"; cases "m_animationFrameRef m")
     (simp_all add: mic_capture_open_def mic_stopRecording_def bind_err_def recorder_stop_def)

lemma mic_stopRecording_twice:
  "mic_stopRecording m = Inr (m', b) \<Longrightarrow> mic_stopRecording m' = Inr (m', False)"
  by (cases "timerRef m"; cases "recorderRef m"; cases "m_animationFrameRef m"; cases "isRecording m")
     (auto simp add: mic_stopRecording_def bind_err_def recorder_stop_def split: if_splits)

text \<open>
  C8. Stopping the capture when none is open is a no-op in both components: it raises no
  error and gives back the very state it was called in, the recording state included.
  So a second stop after a stop changes nothing; in the interview the first stop cannot
  raise either.
\<close>

theorem stop_without_capture_is_noop:
  "(\<not> capture_open s \<longrightarrow> stopRecording s = Inr s)
   \<and> (\<not> mic_capture_open m \<longrightarrow> mic_stopRecording m = Inr (m, False))
   \<and> (\<exists>s'. stopRecording s = Inr s' \<and> stopRecording s' = Inr s')
   \<and> (\<forall>m' b. mic_stopRecording m = Inr (m', b) \<longrightarrow> mic_stopRecording m' = Inr (m', False))"
  using stopRecording_noop [of s] mic_stopRecording_noop [of m] stopRecording_twice [of s]
    mic_stopRecording_twice [of m]
  by blast

theorem stop_without_capture_is_noop_witness:
  "\<not> capture_open initial \<and> stopRecording initial = Inr initial
   \<and> \<not> mic_capture_open mic_initial \<and> mic_stopRecording mic_initial = Inr (mic_initial, False)
   \<and> (\<exists>m'. mic_stopRecording mic_recording = Inr (m', True)
             \<and> mic_stopRecording m' = Inr (m', False))"
proof -
  have a: "\<not> capture_open initial"
    by (simp add: capture_open_def initial_def)
  have b: "\<not> mic_capture_open mic_initial"
    by (simp add: mic_capture_open_def mic_initial_def)
  obtain m' where c: "mic_stopRecording mic_recording = Inr (m', True)"
    by (simp add: mic_recording_def mic_stopRecording_def mic_startRecording_resume_def
          mic_startRecording_def mic_initial_def setupAudioVisualization_def
          startCanvasAnimation_def bind_err_def recorder_stop_def Let_def)
  from c stop_without_capture_is_noop [of initial mic_recording]
  have d: "mic_stopRecording m' = Inr (m', False)" by blast
  from a b c d stop_without_capture_is_noop [of initial mic_initial]
  show ?thesis by blast
qed

section \<open>Ending the session\<close>

lemma handleEndInterview_stop_keeps:
  "\<exists>s4. handleEndInterview_stop s = Inr s4 \<and> trace s4 = trace s \<and> qaLogs s4 = qaLogs s"
  by (cases "mediaRecorderRef s"; cases "animationFrameRef s"; cases "streamRef s";
      cases "audioRef s"; cases "audioContextRef s")
     (simp_all add: handleEndInterview_stop_def stopRecording_def recorder_stop_def bind_err_def
        cleanupAudio_def await_def stop_tracks_def Let_def split: context_state.splits)

lemma handleEndInterview_trace:
  "\<exists>s1. handleEndInterview cachedData s = Inr s1
        \<and> trace s1 = trace s @ [PostWebhook (interviewContent (qaLogs s)) (contactNumber cachedData)]
        \<and> trace (handleEndInterview_settled out s1) = trace s1 @ [OnComplete]"
  using handleEndInterview_stop_keeps [of s]
  by (auto simp add: handleEndInterview_def handleEndInterview_settled_def bind_err_def
        emit_def await_def)

section \<open>Speech synthesis and playback\<close>

text \<open>
  C5. When the synthesis request fails (it rejects, the response is not ok, the audio is
  absent or empty, or it cannot be decoded), \<open>playTTS\<close> sets \<open>aiState\<close> to 2 at once
  and neither starts a playback nor waits for one; when \<open>play()\<close> rejects it sets
  \<open>aiState\<close> to 2 as well; and so does the end of a playback.
\<close>

theorem speech_failure_awaits_answer:
  "aiState (playTTS_response atob fi Rejected s) = 2
   \<and> trace (playTTS_response atob fi Rejected s) = trace s
   \<and> pending (playTTS_response atob fi Rejected s) = pending s
   \<and> aiState (playTTS_response atob fi (Http False audio) s) = 2
   \<and> trace (playTTS_response atob fi (Http False audio) s) = trace s
   \<and> pending (playTTS_response atob fi (Http False audio) s) = pending s
   \<and> aiState (playTTS_response atob fi (Http True None) s) = 2
   \<and> trace (playTTS_response atob fi (Http True None) s) = trace s
   \<and> pending (playTTS_response atob fi (Http True None) s) = pending s
   \<and> aiState (playTTS_response atob fi (Http True (Some (js ''''))) s) = 2
   \<and> trace (playTTS_response atob fi (Http True (Some (js ''''))) s) = trace s
   \<and> pending (playTTS_response atob fi (Http True (Some (js ''''))) s) = pending s
   \<and> aiState (playTTS_response (\<lambda>b. None) fi out s) = 2
   \<and> trace (playTTS_response (\<lambda>b. None) fi out s) = trace s
   \<and> pending (playTTS_response (\<lambda>b. None) fi out s) = pending s
   \<and> aiState (playTTS_played fi Rejected s) = 2
   \<and> trace (playTTS_played fi Rejected s) = trace s
   \<and> pending (playTTS_played fi Rejected s) = pending s
   \<and> aiState (audio_onended s) = 2"
  by (cases out)
     (simp_all add: playTTS_response_def playTTS_played_def audio_onended_def finish_def
        initInterview_done_def present_def truthy_def)

section \<open>The outcome of the self-test\<close>

lemma dropWhile_all: "(dropWhile P s = []) = list_all P s"
  by (induction s) auto

lemma trim_empty_iff: "(trim s = []) = list_all isWhiteSpace s"
proof (cases "dropWhile isWhiteSpace s")
  case Nil
  have "trim s = []" unfolding trim_def Nil by simp
  moreover have "list_all isWhiteSpace s"
    using Nil dropWhile_all [of isWhiteSpace s] by blast
  ultimately show ?thesis by simp
next
  case (Cons x xs)
  then have nw: "\<not> isWhiteSpace x"
    by (metis hd_dropWhile list.sel(1) list.distinct(1))
  have "trim s \<noteq> []" unfolding trim_def Cons using nw by (simp add: dropWhile_all)
  moreover have "\<not> list_all isWhiteSpace s"
    using Cons dropWhile_all [of isWhiteSpace s] by auto
  ultimately show ?thesis by simp
qed

lemma selftest_outcome:
  "isSuccess (handleRecordingComplete_response out m) =
     Some (case out of
             Http ok body_text \<Rightarrow>
               ok \<and> (case body_text of Some t \<Rightarrow> \<not> list_all isWhiteSpace t | None \<Rightarrow> False)
           | _ \<Rightarrow> False)"
proof (cases out)
  case (Http ok body_text)
  then show ?thesis
    by (cases body_text)
       (auto simp add: handleRecordingComplete_response_def present_def truthy_def
          trim_empty_iff Let_def)
qed (simp_all add: handleRecordingComplete_response_def)

text \<open>
  C9. In the microphone self-test the transcription marks the test successful exactly
  when the response is ok and its text has a code unit that is not white space; a text
  that is empty or white space only marks it failed. The button to the next step is
  enabled only after a successful test, and a click on it does nothing otherwise.
\<close>

theorem selftest_needs_text:
  "isSuccess (handleRecordingComplete_response out m) =
     Some (case out of
             Http ok body_text \<Rightarrow>
               ok \<and> (case body_text of Some t \<Rightarrow> \<not> list_all isWhiteSpace t | None \<Rightarrow> False)
           | _ \<Rightarrow> False)
   \<and> (list_all isWhiteSpace t \<longrightarrow>
        isSuccess (handleRecordingComplete_response (Http ok (Some t)) m) = Some False)
   \<and> (next_enabled m \<longrightarrow> isSuccess m = Some True)
   \<and> (isSuccess m \<noteq> Some True \<longrightarrow> click_next m = m)"
  by (simp add: selftest_outcome next_enabled_def click_next_def)

theorem selftest_needs_text_witness:
  "list_all isWhiteSpace (js ''  '')
   \<and> isSuccess (handleRecordingComplete_response (Http True (Some (js ''  ''))) mic_initial) = Some False
   \<and> list_all isWhiteSpace (js '''')
   \<and> isSuccess (handleRecordingComplete_response (Http True (Some (js ''''))) mic_initial) = Some False
   \<and> next_enabled mic_passed \<and> isSuccess mic_passed = Some True
   \<and> isSuccess mic_initial \<noteq> Some True \<and> click_next mic_initial = mic_initial"
proof -
  have a: "list_all isWhiteSpace (js ''  '')" "list_all isWhiteSpace (js '''')"
    by (simp_all add: js_def isWhiteSpace_def)
  have b: "next_enabled mic_passed"
    by (simp add: next_enabled_def mic_passed_def handleRecordingComplete_response_def
          handleRecordingComplete_def mic_initial_def present_def truthy_def trim_def js_def
          isWhiteSpace_def)
  have c: "isSuccess mic_initial \<noteq> Some True"
    by (simp add: mic_initial_def)
  from a b c
    selftest_needs_text [of "Http True (Some (js ''  ''))" mic_initial "js ''  ''" True]
    selftest_needs_text [of "Http True (Some (js ''''))" mic_initial "js ''''" True]
    selftest_needs_text [of Rejected mic_passed "js ''''" True]
  show ?thesis by simp
qed

section \<open>Waiting for the run\<close>

declare waitLoop.simps [simp del]

lemma polls_Suc: "polls (Suc k) = polls k @ [Retrieve k, Sleep 1000]"
  by (simp add: polls_def)

lemma retrievals_polls: "retrievals (polls k) = k"
  by (induction k) (simp_all add: polls_Suc retrievals_def, simp add: polls_def)

lemma waitLoop_skip:
  "(\<forall>j<k. waiting (retrieve j)) \<Longrightarrow> k \<le> n \<Longrightarrow>
   waitLoop retrieve n 0 [] = waitLoop retrieve n k (polls k)"
proof (induction k)
  case 0
  then show ?case by (simp add: polls_def)
next
  case (Suc k)
  then have w: "waiting (retrieve k)" and lt: "k < n" by simp_all
  from Suc have "waitLoop retrieve n 0 [] = waitLoop retrieve n k (polls k)" by simp
  also have "\<dots> = waitLoop retrieve n (Suc k) (polls (Suc k))"
    using w lt by (subst waitLoop.simps) (simp add: waiting_def polls_Suc split: sum.splits)
  finally show ?case .
qed

lemma wait_decided:
  assumes "k < n" and "\<forall>j<k. waiting (retrieve j)" and "\<not> waiting (retrieve k)"
  shows "waitForRunCompletion retrieve n =
           ((case retrieve k of
               Inl e \<Rightarrow> Inl e
             | Inr status \<Rightarrow> if status = js ''completed'' then Inr status else Inl (RunEnded status)),
            polls k @ [Retrieve k])"
proof -
  have "waitForRunCompletion retrieve n = waitLoop retrieve n k (polls k)"
    using assms waitLoop_skip [of k retrieve n] by (simp add: waitForRunCompletion_def)
  also have "\<dots> = ((case retrieve k of
               Inl e \<Rightarrow> Inl e
             | Inr status \<Rightarrow> if status = js ''completed'' then Inr status else Inl (RunEnded status)),
            polls k @ [Retrieve k])"
    using assms(1,3) by (subst waitLoop.simps) (auto simp add: waiting_def split: sum.splits)
  finally show ?thesis .
qed

lemma wait_exhausted:
  assumes "\<forall>j<n. waiting (retrieve j)"
  shows "waitForRunCompletion retrieve n = (Inl RunTimedOut, polls n)"
proof -
  have "waitForRunCompletion retrieve n = waitLoop retrieve n n (polls n)"
    using assms waitLoop_skip [of n retrieve n] by (simp add: waitForRunCompletion_def)
  also have "\<dots> = (Inl RunTimedOut, polls n)"
    by (subst waitLoop.simps) simp
  finally show ?thesis .
qed

lemma waitLoop_retrievals:
  "retrievals (snd (waitLoop retrieve n i evs)) \<le> retrievals evs + (n - i)"
proof (induction retrieve n i evs rule: waitLoop.induct)
  case (1 retrieve maxAttempts i evs)
  show ?case
  proof (cases "i < maxAttempts")
    case False
    then show ?thesis by (subst waitLoop.simps) simp
  next
    case True
    show ?thesis
    proof (cases "retrieve i")
      case (Inl e)
      with True show ?thesis by (subst waitLoop.simps) (simp add: retrievals_def)
    next
      case (Inr status)
      show ?thesis
      proof (cases "status = js ''completed'' \<or> List.member ended_statuses status")
        case True
        with \<open>i < maxAttempts\<close> Inr show ?thesis
          by (subst waitLoop.simps) (auto simp add: retrievals_def)
      next
        case False
        with \<open>i < maxAttempts\<close> Inr "1.IH" [of status]
        have "retrievals (snd (waitLoop retrieve maxAttempts (i + 1) (evs @ [Retrieve i, Sleep 1000])))
              \<le> retrievals (evs @ [Retrieve i, Sleep 1000]) + (maxAttempts - (i + 1))"
          by simp
        moreover have "waitLoop retrieve maxAttempts i evs =
              waitLoop retrieve maxAttempts (i + 1) (evs @ [Retrieve i, Sleep 1000])"
          using False \<open>i < maxAttempts\<close> Inr by (subst waitLoop.simps) simp
        ultimately show ?thesis using \<open>i < maxAttempts\<close>
          by (simp add: retrievals_def)
      qed
    qed
  qed
qed

lemma send_timeout:
  assumes "truthy tid" "truthy msg" "messages_create c = None" "runs_create c = None"
    "\<forall>j<60. waiting (runs_retrieve c j)"
  shows "handleSendMessage c tid msg = \<lparr>http_status = 500, body = ErrorThrown RunTimedOut\<rparr>"
  using assms wait_exhausted [of 60 "runs_retrieve c"]
  by (simp add: handleSendMessage_def sendMessage_try_def default_maxAttempts_def)

lemma completed_not_ended: "\<not> List.member ended_statuses (js ''completed'')"
  by (simp add: ended_statuses_def js_def)

lemma ended_not_completed: "List.member ended_statuses status \<Longrightarrow> status \<noteq> js ''completed''"
  using completed_not_ended by blast

text \<open>
  C6. \<open>waitForRunCompletion\<close> with its default ceiling retrieves the run at most 60
  times, with a wait of 1000 ms after each retrieval that leaves the run unfinished. It
  returns the run at the first retrieval that finds it completed, and throws at the first
  that finds it failed, cancelled or expired, or that throws itself. When 60 retrievals
  in a row leave the run unfinished it throws the time-out error; \<open>handleSendMessage\<close>
  answers that with status 500, and on a response that is not ok \<open>startNextQuestion\<close>
  reports that the question could not be generated and goes back to \<open>aiState\<close> 0.
\<close>

theorem next_question_wait_is_bounded:
  "retrievals (snd (waitForRunCompletion retrieve default_maxAttempts)) \<le> 60
   \<and> (k < 60 \<and> (\<forall>j<k. waiting (retrieve j)) \<and> retrieve k = Inr (js ''completed'') \<longrightarrow>
        waitForRunCompletion retrieve default_maxAttempts
          = (Inr (js ''completed''), polls k @ [Retrieve k]))
   \<and> (k < 60 \<and> (\<forall>j<k. waiting (retrieve j)) \<and> retrieve k = Inr status
        \<and> List.member ended_statuses status \<longrightarrow>
        waitForRunCompletion retrieve default_maxAttempts
          = (Inl (RunEnded status), polls k @ [Retrieve k]))
   \<and> (k < 60 \<and> (\<forall>j<k. waiting (retrieve j)) \<and> retrieve k = Inl e \<longrightarrow>
        waitForRunCompletion retrieve default_maxAttempts = (Inl e, polls k @ [Retrieve k]))
   \<and> ((\<forall>j<60. waiting (retrieve j)) \<longrightarrow>
        waitForRunCompletion retrieve default_maxAttempts = (Inl RunTimedOut, polls 60))
   \<and> (truthy tid \<and> truthy msg \<and> messages_create c = None \<and> runs_create c = None
        \<and> (\<forall>j<60. waiting (runs_retrieve c j)) \<longrightarrow>
        handleSendMessage c tid msg = \<lparr>http_status = 500, body = ErrorThrown RunTimedOut\<rparr>
        \<and> \<not> response_ok (handleSendMessage c tid msg))
   \<and> errorMessage (startNextQuestion_response fi (Http False None) s) = QuestionFailed
   \<and> aiState (startNextQuestion_response fi (Http False None) s) = 0"
proof -
  have bound: "retrievals (snd (waitForRunCompletion retrieve default_maxAttempts)) \<le> 60"
    using waitLoop_retrievals [of retrieve 60 0 "[]"]
    by (simp add: waitForRunCompletion_def default_maxAttempts_def retrievals_def)
  have completed: "waitForRunCompletion retrieve default_maxAttempts
          = (Inr (js ''completed''), polls k @ [Retrieve k])"
    if "k < 60" "\<forall>j<k. waiting (retrieve j)" "retrieve k = Inr (js ''completed'')"
    using that wait_decided [of k 60 retrieve]
    by (simp add: default_maxAttempts_def waiting_def)
  have ended: "waitForRunCompletion retrieve default_maxAttempts
          = (Inl (RunEnded status), polls k @ [Retrieve k])"
    if "k < 60" "\<forall>j<k. waiting (retrieve j)" "retrieve k = Inr status"
      "List.member ended_statuses status"
    using that wait_decided [of k 60 retrieve] ended_not_completed [of status]
    by (simp add: default_maxAttempts_def waiting_def)
  have thrown: "waitForRunCompletion retrieve default_maxAttempts = (Inl e, polls k @ [Retrieve k])"
    if "k < 60" "\<forall>j<k. waiting (retrieve j)" "retrieve k = Inl e"
    using that wait_decided [of k 60 retrieve]
    by (simp add: default_maxAttempts_def waiting_def)
  have exhausted: "waitForRunCompletion retrieve default_maxAttempts = (Inl RunTimedOut, polls 60)"
    if "\<forall>j<60. waiting (retrieve j)"
    using that wait_exhausted [of 60 retrieve] by (simp add: default_maxAttempts_def)
  have route: "handleSendMessage c tid msg = \<lparr>http_status = 500, body = ErrorThrown RunTimedOut\<rparr>
        \<and> \<not> response_ok (handleSendMessage c tid msg)"
    if "truthy tid" "truthy msg" "messages_create c = None" "runs_create c = None"
      "\<forall>j<60. waiting (runs_retrieve c j)"
    using send_timeout [OF that] by (simp add: response_ok_def)
  have client: "errorMessage (startNextQuestion_response fi (Http False None) s) = QuestionFailed"
    "aiState (startNextQuestion_response fi (Http False None) s) = 0"
    by (simp_all add: startNextQuestion_response_def finish_def initInterview_done_def)
  from bound completed ended thrown exhausted route client show ?thesis by blast
qed

theorem next_question_wait_is_bounded_witness:
  "waitForRunCompletion run_completing default_maxAttempts
     = (Inr (js ''completed''), [Retrieve 0, Sleep 1000, Retrieve 1, Sleep 1000, Retrieve 2])
   \<and> waitForRunCompletion run_failing default_maxAttempts
     = (Inl (RunEnded (js ''failed'')), [Retrieve 0, Sleep 1000, Retrieve 1])
   \<and> fst (waitForRunCompletion run_queued default_maxAttempts) = Inl RunTimedOut
   \<and> retrievals (snd (waitForRunCompletion run_queued default_maxAttempts)) = 60
   \<and> handleSendMessage client_queued (js ''t1'') (js ''A1'')
     = \<lparr>http_status = 500, body = ErrorThrown RunTimedOut\<rparr>"
proof -
  have p2: "polls 2 = [Retrieve 0, Sleep 1000, Retrieve 1, Sleep 1000]"
    and p1: "polls 1 = [Retrieve 0, Sleep 1000]"
    by (simp_all add: polls_def numeral_2_eq_2)
  have w1: "\<forall>j<2. waiting (run_completing j)"
    by (simp add: run_completing_def waiting_def ended_statuses_def js_def)
  have w2: "\<forall>j<1. waiting (run_failing j)"
    by (simp add: run_failing_def waiting_def ended_statuses_def js_def)
  have w3: "\<forall>j<60. waiting (run_queued j)"
    by (simp add: run_queued_def waiting_def ended_statuses_def js_def)
  have m: "List.member ended_statuses (js ''failed'')"
    by (simp add: ended_statuses_def)
  have a: "waitForRunCompletion run_completing default_maxAttempts
     = (Inr (js ''completed''), [Retrieve 0, Sleep 1000, Retrieve 1, Sleep 1000, Retrieve 2])"
    using w1 p2 next_question_wait_is_bounded [where retrieve = run_completing and k = 2]
    by (simp add: run_completing_def)
  have b: "waitForRunCompletion run_failing default_maxAttempts
     = (Inl (RunEnded (js ''failed'')), [Retrieve 0, Sleep 1000, Retrieve 1])"
    using w2 m p1
      next_question_wait_is_bounded [where retrieve = run_failing and k = 1 and status = "js ''failed''"]
    by (simp add: run_failing_def)
  have c: "waitForRunCompletion run_queued default_maxAttempts = (Inl RunTimedOut, polls 60)"
    using w3 next_question_wait_is_bounded [where retrieve = run_queued] by blast
  have d: "handleSendMessage client_queued (js ''t1'') (js ''A1'')
     = \<lparr>http_status = 500, body = ErrorThrown RunTimedOut\<rparr>"
    using w3 next_question_wait_is_bounded
      [where c = client_queued and tid = "js ''t1''" and msg = "js ''A1''"]
    by (simp add: client_queued_def truthy_def js_def)
  from a b c d show ?thesis by (simp add: retrievals_polls)
qed

section \<open>Runs of the interview\<close>

lemmas interview_defs = step_def handle_def rerender_def useEffect_body_def initInterview_def
  initInterview_response_def startNextQuestion_def startNextQuestion_response_def playTTS_def
  playTTS_response_def playTTS_played_def audio_onended_def toggleRecording_def
  initializeRecording_def initializeRecording_resume_def stopRecording_def recorder_stop_def
  cleanupAudio_def stop_tracks_def drawWaveform_def processAudioToText_def
  processAudioToText_response_def nextQuestion_timeout_def recorder_onstop_def
  handleEndInterview_def handleEndInterview_settled_def handleEndInterview_stop_def
  handleEndInterview_unread_def finish_def initInterview_done_def
  emit_def await_def capture_def present_def truthy_def bind_err_def initial_def answer_last_def
  base64ToBlob_def Let_def js_def

section \<open>The transcription in the interview\<close>






section \<open>Recording while the question is asked\<close>

text \<open>
  C2 does not hold of the code. \<open>toggleRecording\<close> ignores the click while \<open>aiState\<close>
  is 1, but \<open>startNextQuestion\<close> sets \<open>aiState\<close> to 1 without looking at the
  recording. First run: the user clicks the record button while the thread is being
  created; when the thread arrives, \<open>recordingState\<close> and \<open>aiState\<close> are both 1.
  Second run: after the first answer has been transcribed the user starts to record
  again within the delay of the next question; when the timer fires, \<open>aiState\<close> becomes
  1 while the recorder is recording on an open stream.
\<close>

theorem recording_and_asking_overlap:
  "map_sum id phase_view
     (run Some [(0, Mount), (1, ClickRecord), (2, Settle 0 (Http True (Some (js ''t1''))))] initial)
   = Inr (1, 1, False, None, [])
   \<and> map_sum id phase_view
     (run Some (answer_recorded @
        [(1600, Settle 0 (Http True (Some (js ''A1'')))), (1700, ClickRecord),
         (1800, Settle 1 Resolved), (2600, Settle 0 Resolved)]) initial)
   = Inr (1, 1, False, Some Recording, [1])"
  by (simp add: answer_recorded_def first_question_asked_def phase_view_def interview_defs)

text \<open>
  The guard of \<open>toggleRecording\<close> itself holds: while \<open>aiState\<close> is 1, or a
  transcription is in progress, a click on the record button changes nothing.
\<close>

lemma toggle_ignored_while_asking:
  "aiState s = 1 \<or> isProcessing s \<Longrightarrow> toggleRecording s = Inr s"
  by (simp add: toggleRecording_def)

section \<open>Open streams\<close>

text \<open>
  C7 does not hold of the code. \<open>initializeRecording\<close> stops the stream it holds before
  it asks for a new one, but it takes the new stream only after \<open>await\<close>. In this run
  the first question has been asked and the user clicks the record button three times
  (start, stop, start) before the two requests for the microphone are granted: both
  streams are open, nothing is pending, and only the second is held. A fourth click
  stops the recording and closes the second stream; the first stays open.
\<close>

theorem two_streams_after_three_clicks:
  "map_sum id capture_view
     (run Some (first_question_asked @
        [(6, ClickRecord), (7, ClickRecord), (8, ClickRecord),
         (9, Settle 0 Resolved), (10, Settle 0 Resolved)]) initial)
   = Inr (1, Some Recording, Some 1, [0, 1], [])
   \<and> map_sum id capture_view
     (run Some (first_question_asked @
        [(6, ClickRecord), (7, ClickRecord), (8, ClickRecord),
         (9, Settle 0 Resolved), (10, Settle 0 Resolved), (11, ClickRecord)]) initial)
   = Inr (0, Some Inactive, None, [0],
          [RecorderStopping \<lparr>r_aiState = 2, r_isProcessing = False, r_threadId = js ''t1''\<rparr>])"
  by (simp add: first_question_asked_def capture_view_def interview_defs)

text \<open>
  When every start has settled before the next call is made, no stream is open but the
  one held, in both components: the overlap of two starts in the run above is what it
  takes to have two.
\<close>

lemma held_start:
  "held_only s \<Longrightarrow> held_only (initializeRecording_resume cl now out (initializeRecording cl s))"
  by (cases out; cases "streamRef s")
     (auto simp add: held_only_def initializeRecording_resume_def initializeRecording_def
        drawWaveform_def await_def emit_def stop_tracks_def Let_def)

lemma held_stop: "held_only s \<Longrightarrow> stopRecording s = Inr s' \<Longrightarrow> held_only s'"
  by (cases "mediaRecorderRef s"; cases "animationFrameRef s"; cases "streamRef s")
     (auto simp add: held_only_def stopRecording_def bind_err_def recorder_stop_def await_def
        stop_tracks_def split: if_splits)

lemma held_settle:
  "held_only s \<Longrightarrow> settle_calls cs s = Inr s' \<Longrightarrow> held_only s'"
proof (induction cs s rule: settle_calls.induct)
  case (1 s)
  then show ?case by simp
next
  case (2 cl now out cs s)
  then show ?case using held_start by simp
next
  case (3 cs s)
  from "3.prems"(2) obtain s1 where a: "stopRecording s = Inr s1" and b: "settle_calls cs s1 = Inr s'"
    by (cases "stopRecording s") (simp_all add: bind_err_def)
  from held_stop [OF "3.prems"(1) a] "3.IH" b show ?case by blast
qed

lemma mic_held_start:
  "mic_held_only s \<Longrightarrow>
   mic_held_only (case mic_startRecording supported s of
                    (s1, True) \<Rightarrow> mic_startRecording_resume now out s1
                  | (s1, False) \<Rightarrow> s1)"
  by (cases out; cases "m_streamRef s"; cases supported)
     (auto simp add: mic_held_only_def mic_startRecording_def mic_startRecording_resume_def
        setupAudioVisualization_def startCanvasAnimation_def mic_stop_tracks_def Let_def)

lemma mic_held_stop: "mic_held_only s \<Longrightarrow> mic_stopRecording s = Inr (s', b) \<Longrightarrow> mic_held_only s'"
  by (cases "timerRef s"; cases "recorderRef s"; cases "m_animationFrameRef s"; cases "isRecording s";
      cases "m_streamRef s")
     (auto simp add: mic_held_only_def mic_stopRecording_def bind_err_def recorder_stop_def
        split: if_splits)

lemma mic_held_settle:
  "mic_held_only s \<Longrightarrow> mic_settle_calls cs s = Inr s' \<Longrightarrow> mic_held_only s'"
proof (induction cs arbitrary: s)
  case Nil
  then show ?case by simp
next
  case (Cons c cs)
  show ?case
  proof (cases c)
    case (MicStart supported now out)
    obtain s1 w where sr: "mic_startRecording supported s = (s1, w)"
      by (cases "mic_startRecording supported s")
    show ?thesis
    proof (cases w)
      case True
      with sr mic_held_start [where s = s and supported = supported and now = now and out = out,
          OF Cons.prems(1)]
      have "mic_held_only (mic_startRecording_resume now out s1)" by simp
      moreover from Cons.prems(2) MicStart sr True
      have "mic_settle_calls cs (mic_startRecording_resume now out s1) = Inr s'" by simp
      ultimately show ?thesis using Cons.IH by blast
    next
      case False
      with sr mic_held_start [where s = s and supported = supported and now = now and out = out,
          OF Cons.prems(1)]
      have "mic_held_only s1" by simp
      moreover from Cons.prems(2) MicStart sr False
      have "mic_settle_calls cs s1 = Inr s'" by simp
      ultimately show ?thesis using Cons.IH by blast
    qed
  next
    case MicStop
    with Cons.prems(2) obtain s1 b where a: "mic_stopRecording s = Inr (s1, b)"
      and c: "mic_settle_calls cs s1 = Inr s'"
      by (cases "mic_stopRecording s") (auto simp add: bind_err_def)
    from mic_held_stop [OF Cons.prems(1) a] Cons.IH c show ?thesis by blast
  qed
qed

lemma one_stream_when_calls_settle:
  "(settle_calls cs initial = Inr s' \<longrightarrow> length (openStreams s') \<le> 1)
   \<and> (mic_settle_calls mcs mic_initial = Inr m' \<longrightarrow> length (m_openStreams m') \<le> 1)"
proof -
  have "held_only initial" "mic_held_only mic_initial"
    by (simp_all add: held_only_def initial_def mic_held_only_def mic_initial_def)
  with held_settle [of initial cs s'] mic_held_settle [of mic_initial mcs m']
  show ?thesis
    by (auto simp add: held_only_def mic_held_only_def split: option.splits)
qed

section \<open>Every Turn reaches the transcript\<close>

lemma interviewContent_transcript: "logs \<noteq> [] \<Longrightarrow> interviewContent logs = spec_transcript logs"
  using forEach_qa_join [of 0 logs "length logs" "js ''''"]
  by (simp add: interviewContent_def)

lemma spec_transcript_Cons:
  "spec_transcript (t # logs) =
     spec_segment (q t) (aText t) @ (if logs = [] then [] else js '', '' @ spec_transcript logs)"
  by (cases logs) (simp_all add: spec_transcript_def)

lemma spec_transcript_snoc:
  "spec_transcript (logs @ [t]) =
     (if logs = [] then [] else spec_transcript logs @ js '', '') @ spec_segment (q t) (aText t)"
proof (induction logs)
  case Nil
  then show ?case by (simp add: spec_transcript_def)
next
  case (Cons x logs)
  then show ?case by (simp add: spec_transcript_Cons)
qed

lemma segment_in_transcript:
  "t \<in> set logs \<Longrightarrow> \<exists>pre post. spec_transcript logs = pre @ spec_segment (q t) (aText t) @ post"
proof (induction logs)
  case Nil
  then show ?case by simp
next
  case (Cons x logs)
  show ?case
  proof (cases "t = x")
    case True
    have "spec_transcript (x # logs) =
          [] @ spec_segment (q t) (aText t) @ (if logs = [] then [] else js '', '' @ spec_transcript logs)"
      using True by (simp add: spec_transcript_Cons)
    then show ?thesis by blast
  next
    case False
    with Cons.prems have mem: "t \<in> set logs" by simp
    then have ne: "logs \<noteq> []" by auto
    from Cons.IH [OF mem] obtain pre post
      where "spec_transcript logs = pre @ spec_segment (q t) (aText t) @ post" by blast
    with ne have "spec_transcript (x # logs) =
          (spec_segment (q x) (aText x) @ js '', '' @ pre) @ spec_segment (q t) (aText t) @ post"
      by (simp add: spec_transcript_Cons)
    then show ?thesis by blast
  qed
qed

lemma map_q_answer_last: "map q (answer_last a d logs) = map q logs"
  by (simp add: answer_last_def map_update list_update_same_conv)

lemma qaLogs_finish [simp]: "qaLogs (finish fi s) = qaLogs s"
  by (simp add: finish_def initInterview_done_def)

lemma qaLogs_playTTS [simp]: "qaLogs (playTTS fi m s) = qaLogs s"
  by (cases "audioRef s") (simp_all add: playTTS_def await_def emit_def)

lemma qaLogs_startNextQuestion [simp]: "qaLogs (startNextQuestion fi a tid m s) = qaLogs s"
  by (simp add: startNextQuestion_def await_def emit_def)

lemma qaLogs_processAudioToText [simp]: "qaLogs (processAudioToText cl now s) = qaLogs s"
  by (simp add: processAudioToText_def await_def emit_def Let_def)

lemma qaLogs_cleanupAudio [simp]: "qaLogs (cleanupAudio s) = qaLogs s"
  by (cases "streamRef s"; cases "audioContextRef s")
     (simp_all add: cleanupAudio_def stop_tracks_def Let_def split: context_state.splits)

lemma qaLogs_useEffect_body [simp]: "qaLogs (useEffect_body s) = qaLogs s"
  by (simp add: useEffect_body_def initInterview_def await_def emit_def)

lemma resume_questions:
  "\<exists>more. map q (qaLogs (resume atob now k out s)) = map q (qaLogs s) @ more"
proof (cases k)
  case (AwaitCreateThread cl)
  then show ?thesis by (cases out) (simp_all add: initInterview_response_def)
next
  case (AwaitSendMessage fi)
  then show ?thesis by (cases out) (simp_all add: startNextQuestion_response_def)
next
  case (AwaitTts fi)
  then show ?thesis
    by (cases out; cases "audioRef s")
       (simp_all add: playTTS_response_def await_def emit_def split: option.splits)
next
  case (AwaitPlay fi)
  then show ?thesis by (cases out) (simp_all add: playTTS_played_def await_def)
next
  case AudioPlaying
  then show ?thesis by (simp add: audio_onended_def)
next
  case (AwaitUserMedia cl)
  then show ?thesis
    by (cases out) (simp_all add: initializeRecording_resume_def drawWaveform_def Let_def)
next
  case (RecorderStopping cl)
  then show ?thesis by (cases out) (simp_all add: recorder_onstop_def)
next
  case (AwaitWhisper cl d)
  then show ?thesis
    by (cases out) (simp_all add: processAudioToText_response_def await_def map_q_answer_last)
next
  case (Timeout1000 cl m)
  then show ?thesis by (simp add: nextQuestion_timeout_def Let_def)
next
  case AwaitWebhook
  then show ?thesis by (simp add: handleEndInterview_settled_def emit_def)
qed

lemma handleEndInterview_questions:
  "handleEndInterview cachedData s = Inr s' \<Longrightarrow> qaLogs s' = qaLogs s"
  using handleEndInterview_stop_keeps [of s]
  by (auto simp add: handleEndInterview_def bind_err_def await_def emit_def)

lemma handleEndInterview_unread_questions:
  "handleEndInterview_unread s = Inr s' \<Longrightarrow> qaLogs s' = qaLogs s"
  using handleEndInterview_stop_keeps [of s]
  by (auto simp add: handleEndInterview_unread_def bind_err_def emit_def)

lemma toggleRecording_questions:
  "toggleRecording s = Inr s' \<Longrightarrow> qaLogs s' = qaLogs s"
proof -
  assume h: "toggleRecording s = Inr s'"
  show ?thesis
  proof (cases "aiState s = 1 \<or> isProcessing s")
    case True
    with h show ?thesis by (simp add: toggleRecording_def)
  next
    case False
    show ?thesis
    proof (cases "recordingState s = 0")
      case True
      with False h show ?thesis
        by (cases "streamRef s")
           (auto simp add: toggleRecording_def initializeRecording_def await_def emit_def
              stop_tracks_def Let_def)
    next
      case False
      with \<open>\<not> (aiState s = 1 \<or> isProcessing s)\<close> h
      have "stopRecording (s\<lparr>recordingState := 0\<rparr>) = Inr s'"
        by (simp add: toggleRecording_def Let_def)
      from stopRecording_keeps [OF this] show ?thesis by simp
    qed
  qed
qed

lemma handle_questions:
  "handle atob now e s = Inr s' \<Longrightarrow> \<exists>more. map q (qaLogs s') = map q (qaLogs s) @ more"
proof (cases e)
  case Mount
  assume "handle atob now e s = Inr s'"
  with Mount show ?thesis by (auto simp add: handle_def)
next
  case ClickRecord
  assume "handle atob now e s = Inr s'"
  with ClickRecord toggleRecording_questions [of s s'] show ?thesis by (simp add: handle_def)
next
  case (ClickEnd c)
  assume "handle atob now e s = Inr s'"
  with ClickEnd handleEndInterview_questions [of c s s'] show ?thesis by (simp add: handle_def)
next
  case ClickEndUnread
  assume "handle atob now e s = Inr s'"
  with ClickEndUnread handleEndInterview_unread_questions [of s s'] show ?thesis
    by (simp add: handle_def)
next
  case (Settle i out)
  assume h: "handle atob now e s = Inr s'"
  show ?thesis
  proof (cases "i < length (pending s)")
    case True
    with h Settle
      resume_questions [of atob now "pending s ! i" out
        "s\<lparr>pending := take i (pending s) @ drop (Suc i) (pending s)\<rparr>"]
    show ?thesis by (auto simp add: handle_def)
  next
    case False
    with h Settle show ?thesis by (auto simp add: handle_def)
  qed
qed

lemma rerender_questions: "rerender prev s = Inr s' \<Longrightarrow> qaLogs s' = qaLogs s"
proof -
  assume h: "rerender prev s = Inr s'"
  obtain s1 where s1: "stopRecording s = Inr s1"
    using stopRecording_twice [of s] by blast
  from stopRecording_keeps [OF s1] have "qaLogs s1 = qaLogs s" by simp
  with h s1 show ?thesis
    by (auto simp add: rerender_def bind_err_def split: if_splits)
qed

lemma step_questions:
  "step atob ev s = Inr s' \<Longrightarrow> \<exists>more. map q (qaLogs s') = map q (qaLogs s) @ more"
proof -
  assume h: "step atob ev s = Inr s'"
  then obtain s1 where a: "handle atob (fst ev) (snd ev) s = Inr s1" and b: "rerender s s1 = Inr s'"
    by (cases "handle atob (fst ev) (snd ev) s") (simp_all add: step_def bind_err_def)
  from handle_questions [OF a] rerender_questions [OF b] show ?thesis by simp
qed

lemma run_questions:
  "run atob evs s = Inr s' \<Longrightarrow> \<exists>more. map q (qaLogs s') = map q (qaLogs s) @ more"
proof (induction evs arbitrary: s)
  case Nil
  then show ?case by simp
next
  case (Cons ev evs)
  then obtain s1 where a: "step atob ev s = Inr s1" and b: "run atob evs s1 = Inr s'"
    by (cases "step atob ev s") (simp_all add: bind_err_def)
  from step_questions [OF a] obtain m1 where "map q (qaLogs s1) = map q (qaLogs s) @ m1" by blast
  moreover from Cons.IH [OF b] obtain m2 where "map q (qaLogs s') = map q (qaLogs s1) @ m2" by blast
  ultimately have "map q (qaLogs s') = map q (qaLogs s) @ (m1 @ m2)" by simp
  then show ?case by blast
qed

lemma end_delivers_segment:
  assumes "t \<in> set (qaLogs s)"
  shows "\<exists>s1 pre post. handleEndInterview cachedData s = Inr s1
      \<and> trace s1 = trace s
          @ [PostWebhook (pre @ label_question @ q t @ label_answer @ aText t @ post)
               (contactNumber cachedData)]"
proof -
  from assms have ne: "qaLogs s \<noteq> []" by auto
  from segment_in_transcript [OF assms] obtain pre post
    where "spec_transcript (qaLogs s) = pre @ spec_segment (q t) (aText t) @ post" by blast
  with ne have c: "interviewContent (qaLogs s)
      = pre @ label_question @ q t @ label_answer @ aText t @ post"
    by (simp add: interviewContent_transcript spec_segment_def)
  from handleEndInterview_trace [of cachedData s Resolved] obtain s1
    where "handleEndInterview cachedData s = Inr s1"
      and "trace s1 = trace s
          @ [PostWebhook (interviewContent (qaLogs s)) (contactNumber cachedData)]"
    by blast
  with c show ?thesis by auto
qed

text \<open>
  C10. A question is appended to the log, as a Turn with the empty answer, in the very
  step that sends its synthesis request, so before any playback. No event removes a Turn
  from the log or changes its question. At the end of the session the transcript that is
  delivered has the segment of every Turn of the log, with the answer it has by then; a
  Turn that was never answered is rendered with the empty answer after the answer label.
\<close>

theorem every_turn_is_delivered:
  "(present (Some m) \<longrightarrow>
      qaLogs (startNextQuestion_response fi (Http True (Some m)) s)
        = qaLogs s @ [\<lparr>q = m, aText = js '''', durationSec = 0\<rparr>]
      \<and> trace (startNextQuestion_response fi (Http True (Some m)) s) = trace s @ [PostTts m])
   \<and> (run atob evs s = Inr s' \<longrightarrow> (\<exists>more. map q (qaLogs s') = map q (qaLogs s) @ more))
   \<and> (t \<in> set (qaLogs s) \<longrightarrow>
        (\<exists>s1 pre post. handleEndInterview cachedData s = Inr s1
           \<and> trace s1 = trace s
               @ [PostWebhook (pre @ label_question @ q t @ label_answer @ aText t @ post)
                    (contactNumber cachedData)]))
   \<and> interviewContent (logs @ [\<lparr>q = m, aText = js '''', durationSec = 0\<rparr>])
       = (if logs = [] then js '''' else spec_transcript logs @ js '', '')
         @ label_question @ m @ label_answer"
proof -
  have a: "qaLogs (startNextQuestion_response fi (Http True (Some m)) s)
        = qaLogs s @ [\<lparr>q = m, aText = js '''', durationSec = 0\<rparr>]
      \<and> trace (startNextQuestion_response fi (Http True (Some m)) s) = trace s @ [PostTts m]"
    if "present (Some m)"
    using that
    by (cases "audioRef s")
       (simp_all add: startNextQuestion_response_def playTTS_def await_def emit_def Let_def)
  have d: "interviewContent (logs @ [\<lparr>q = m, aText = js '''', durationSec = 0\<rparr>])
       = (if logs = [] then js '''' else spec_transcript logs @ js '', '')
         @ label_question @ m @ label_answer"
    by (simp add: interviewContent_transcript spec_transcript_snoc spec_segment_def)
  from a run_questions [of atob evs s s'] end_delivers_segment [of t s cachedData] d
  show ?thesis by blast
qed

theorem every_turn_is_delivered_witness:
  "present (Some (js ''Q1''))
   \<and> qaLogs (startNextQuestion_response False (Http True (Some (js ''Q1''))) initial)
       = [\<lparr>q = js ''Q1'', aText = js '''', durationSec = 0\<rparr>]
   \<and> trace (startNextQuestion_response False (Http True (Some (js ''Q1''))) initial)
       = [PostTts (js ''Q1'')]
   \<and> (\<exists>s'. run Some first_question_asked initial = Inr s' \<and> map q (qaLogs s') = [js ''Q1''])
   \<and> (\<exists>s1. handleEndInterview NoEntry open_turn = Inr s1
          \<and> trace s1 = [PostWebhook (label_question @ js ''Q1'' @ label_answer) (js '''')])"
proof -
  have p: "present (Some (js ''Q1''))"
    by (simp add: present_def truthy_def js_def)
  have i: "qaLogs initial = []" "trace initial = []"
    by (simp_all add: initial_def)
  from p i every_turn_is_delivered [of "js ''Q1''" False initial]
  have a: "qaLogs (startNextQuestion_response False (Http True (Some (js ''Q1''))) initial)
       = [\<lparr>q = js ''Q1'', aText = js '''', durationSec = 0\<rparr>]"
    "trace (startNextQuestion_response False (Http True (Some (js ''Q1''))) initial)
       = [PostTts (js ''Q1'')]"
    by simp_all
  have "map_sum id (\<lambda>s. map q (qaLogs s)) (run Some first_question_asked initial) = Inr [js ''Q1'']"
    by (simp add: first_question_asked_def interview_defs)
  then obtain s' where r: "run Some first_question_asked initial = Inr s'"
    and q1: "map q (qaLogs s') = [js ''Q1'']"
    by (cases "run Some first_question_asked initial") auto
  have o: "qaLogs open_turn = [\<lparr>q = js ''Q1'', aText = js '''', durationSec = 0\<rparr>]"
    "trace open_turn = []"
    by (simp_all add: open_turn_def initial_def)
  then have mem: "\<lparr>q = js ''Q1'', aText = js '''', durationSec = 0\<rparr> \<in> set (qaLogs open_turn)"
    by simp
  from mem every_turn_is_delivered
    [where t = "\<lparr>q = js ''Q1'', aText = js '''', durationSec = 0\<rparr>" and s = open_turn
       and cachedData = NoEntry]
  obtain s1 pre post where e: "handleEndInterview NoEntry open_turn = Inr s1"
    and "trace s1 = trace open_turn
        @ [PostWebhook (pre @ label_question @ q \<lparr>q = js ''Q1'', aText = js '''', durationSec = 0\<rparr>
             @ label_answer @ aText \<lparr>q = js ''Q1'', aText = js '''', durationSec = 0\<rparr> @ post)
             (contactNumber NoEntry)]"
    by blast
  from handleEndInterview_trace [of NoEntry open_turn Resolved] e o
  have "trace s1 = [PostWebhook (label_question @ js ''Q1'' @ label_answer) (js '''')]"
    by (simp add: interviewContent_def contactNumber_def label_question_def label_answer_def)
  with e have y: "\<exists>s1. handleEndInterview NoEntry open_turn = Inr s1
          \<and> trace s1 = [PostWebhook (label_question @ js ''Q1'' @ label_answer) (js '''')]"
    by (intro exI [of _ s1] conjI)
  from r q1 have x: "\<exists>s'. run Some first_question_asked initial = Inr s'
          \<and> map q (qaLogs s') = [js ''Q1'']"
    by (intro exI [of _ s'] conjI)
  from p a x y show ?thesis by simp
qed

section \<open>Ending the session: delivery and completion\<close>

lemma handleEndInterview_pending:
  "\<exists>s1 ks. handleEndInterview cachedData s = Inr s1
        \<and> trace s1 = trace s @ [PostWebhook (interviewContent (qaLogs s)) (contactNumber cachedData)]
        \<and> pending s1 = ks @ [AwaitWebhook]"
  using handleEndInterview_stop_keeps [of s]
  by (auto simp add: handleEndInterview_def bind_err_def emit_def await_def)

lemma webhook_settled:
  "pending s1 = ks @ [AwaitWebhook] \<Longrightarrow>
   \<exists>s2. handle atob later (Settle (length ks) out) s1 = Inr s2
        \<and> trace s2 = trace s1 @ [OnComplete] \<and> pending s2 = ks"
  by (simp add: handle_def handleEndInterview_settled_def emit_def nth_append)

lemma handleEndInterview_unread_completes:
  "\<exists>s1. handleEndInterview_unread s = Inr s1
        \<and> count_list (trace s1) OnComplete = count_list (trace s) OnComplete + 1"
  using handleEndInterview_stop_keeps [of s]
  by (auto simp add: handleEndInterview_unread_def bind_err_def emit_def)

text \<open>
  C4, as the code has it. When the cache entry can be read (it is there, absent or not
  parsable), the click on the end button sends exactly one request to the webhook,
  with the serialized log and the contact number, in every state of the component, and
  leaves the function waiting for it; when that request has settled, on success, on a
  response that is not ok and on a thrown error alike, the completion callback is
  called, once. The callback is called once as well when the cache entry cannot be read.
  The request carries the fixed notice that there is no record only when the log has no
  Turn at all; a log with Turns is sent as the segments of its Turns, answered or not.
\<close>

theorem end_delivers_once_and_completes:
  "(\<exists>s1 ks. handle atob now (ClickEnd cachedData) s = Inr s1
        \<and> trace s1 = trace s @ [PostWebhook (interviewContent (qaLogs s)) (contactNumber cachedData)]
        \<and> pending s1 = ks @ [AwaitWebhook]
        \<and> (\<exists>s2. handle atob later (Settle (length ks) out) s1 = Inr s2
               \<and> trace s2 = trace s1 @ [OnComplete] \<and> pending s2 = ks))
   \<and> (\<exists>s1. handle atob now ClickEndUnread s = Inr s1
          \<and> count_list (trace s1) OnComplete = count_list (trace s) OnComplete + 1)
   \<and> interviewContent [] = no_record
   \<and> (logs \<noteq> [] \<longrightarrow> interviewContent logs = spec_transcript logs)"
proof -
  from handleEndInterview_pending [of cachedData s] obtain s1 ks
    where a: "handleEndInterview cachedData s = Inr s1"
      and b: "trace s1 = trace s @ [PostWebhook (interviewContent (qaLogs s)) (contactNumber cachedData)]"
      and c: "pending s1 = ks @ [AwaitWebhook]"
    by blast
  from webhook_settled [OF c, of atob later out] obtain s2
    where d: "handle atob later (Settle (length ks) out) s1 = Inr s2"
      and e: "trace s2 = trace s1 @ [OnComplete]" and f: "pending s2 = ks"
    by blast
  from a have a': "handle atob now (ClickEnd cachedData) s = Inr s1"
    by (simp add: handle_def)
  from a' b c d e f have first:
    "\<exists>s1 ks. handle atob now (ClickEnd cachedData) s = Inr s1
        \<and> trace s1 = trace s @ [PostWebhook (interviewContent (qaLogs s)) (contactNumber cachedData)]
        \<and> pending s1 = ks @ [AwaitWebhook]
        \<and> (\<exists>s2. handle atob later (Settle (length ks) out) s1 = Inr s2
               \<and> trace s2 = trace s1 @ [OnComplete] \<and> pending s2 = ks)"
    by (intro exI [of _ s1] exI [of _ ks] exI [of _ s2] conjI)
  have second: "\<exists>s1. handle atob now ClickEndUnread s = Inr s1
          \<and> count_list (trace s1) OnComplete = count_list (trace s) OnComplete + 1"
    using handleEndInterview_unread_completes [of s] by (simp add: handle_def)
  have third: "interviewContent [] = no_record"
    by (simp add: interviewContent_def)
  from first second third interviewContent_transcript show ?thesis by simp
qed

theorem end_delivers_once_and_completes_witness:
  "qaLogs open_turn \<noteq> []
   \<and> (\<exists>s1 ks s2. handle Some 0 (ClickEnd NoEntry) open_turn = Inr s1
          \<and> pending s1 = ks @ [AwaitWebhook]
          \<and> handle Some 1 (Settle (length ks) Rejected) s1 = Inr s2
          \<and> trace s2 = [PostWebhook (spec_transcript (qaLogs open_turn)) (js ''''), OnComplete])"
proof -
  have ne: "qaLogs open_turn \<noteq> []" and tr: "trace open_turn = []"
    by (simp_all add: open_turn_def initial_def)
  have cn: "contactNumber NoEntry = js ''''"
    by (simp add: contactNumber_def)
  from end_delivers_once_and_completes
    [where s = open_turn and cachedData = NoEntry and out = Rejected and atob = Some
       and now = 0 and later = 1 and logs = "qaLogs open_turn"]
  obtain s1 ks s2 where a: "handle Some 0 (ClickEnd NoEntry) open_turn = Inr s1"
    and b: "trace s1 = trace open_turn
        @ [PostWebhook (interviewContent (qaLogs open_turn)) (contactNumber NoEntry)]"
    and c: "pending s1 = ks @ [AwaitWebhook]"
    and d: "handle Some 1 (Settle (length ks) Rejected) s1 = Inr s2"
    and e: "trace s2 = trace s1 @ [OnComplete]"
    and f: "interviewContent (qaLogs open_turn) = spec_transcript (qaLogs open_turn)"
    using ne by blast
  from b e f tr cn
  have g: "trace s2 = [PostWebhook (spec_transcript (qaLogs open_turn)) (js ''''), OnComplete]"
    by simp
  from a c d g
  have "\<exists>s1 ks s2. handle Some 0 (ClickEnd NoEntry) open_turn = Inr s1
          \<and> pending s1 = ks @ [AwaitWebhook]
          \<and> handle Some 1 (Settle (length ks) Rejected) s1 = Inr s2
          \<and> trace s2 = [PostWebhook (spec_transcript (qaLogs open_turn)) (js ''''), OnComplete]"
    by (intro exI [of _ s1] exI [of _ ks] exI [of _ s2] conjI)
  with ne show ?thesis by simp
qed

text \<open>
  The claim C4 fails in two ways. In both runs the first question has been asked and the
  user ends the session before answering, so that no Turn is completed. In the first
  run \<open>localStorage.getItem\<close> throws: the completion callback is called and no request
  to the webhook has been sent. In the second run the cache entry is absent: the one
  request carries the segment of the open Turn with the empty answer, which is not the
  notice that there is no record.
\<close>

theorem end_without_delivery_or_without_notice:
  "map_sum id answer_view (run Some (first_question_asked @ [(6, ClickEndUnread)]) initial)
   = Inr (NoMessage, [(js '''', 0)], [], 0,
          [PostCreateThread, PostSendMessage (js ''t1'') seed_prompt, PostTts (js ''Q1''),
           AudioPlay, OnComplete])
   \<and> map_sum id answer_view (run Some (first_question_asked @ [(6, ClickEnd NoEntry)]) initial)
   = Inr (NoMessage, [(js '''', 0)], [AwaitWebhook], 0,
          [PostCreateThread, PostSendMessage (js ''t1'') seed_prompt, PostTts (js ''Q1''),
           AudioPlay, PostWebhook (label_question @ js ''Q1'' @ label_answer) (js '''')])
   \<and> label_question @ js ''Q1'' @ label_answer \<noteq> no_record"
  by (simp add: first_question_asked_def answer_view_def interview_defs interviewContent_def
        contactNumber_def label_question_def label_answer_def no_record_def)

end
